theory Spec2Isabelle
  imports Main "HOL-Library.Sublist" "HOL-Library.Word"
begin

section \<open>FileFusion: the file-processing pipeline\<close>

text \<open>
  A shallow embedding of \<^verbatim>\<open>filefusion/utils/helpers.py\<close>,
  \<^verbatim>\<open>filefusion/core/file_processor.py\<close>, \<^verbatim>\<open>filefusion/core/output_formats.py\<close>
  and the collecting and assembling part of \<^verbatim>\<open>filefusion/cli.py\<close>.

  Conventions.
  \<^item> A path, an extension token and a template text is a \<open>string\<close>, whose characters
    are the code points below 256 (\<open>CHR 0xC9\<close> is U+00C9); \<open>str.lower\<close> on such a
    string maps each character on its own.
  \<^item> The bytes of a file are a list of 8-bit words; decoded text is a list of Unicode
    code points (\<open>nat\<close>).
  \<^item> Every call into the operating system is a field of the record \<open>world\<close>, one
    field per call site, so that two calls on the same path may disagree (the file system
    changes while the program runs). A call that the library documents as raising
    returns \<open>exn + 'a\<close>, \<open>Inl\<close> being the exception.
  \<^item> A Python function that may raise returns \<open>exn + 'a\<close> as well.
\<close>

subsection \<open>Python strings\<close>

type_synonym byte = "8 word"

text \<open>
  \<^verbatim>\<open>str.lower\<close> on one character. The cased upper-case letters below 256 are
  \<open>A..Z\<close> (U+0041 to U+005A), U+00C0 to U+00D6 and U+00D8 to U+00DE (U+00D7 is the
  multiplication sign); the lower-case letter of each is 32 code points further.
\<close>

definition lower_char :: "char \<Rightarrow> char" where
  "lower_char c =
     (let n = (of_char c :: nat)
      in if (65 \<le> n \<and> n \<le> 90) \<or> (192 \<le> n \<and> n \<le> 214) \<or> (216 \<le> n \<and> n \<le> 222)
         then char_of (n + 32) else c)"

definition lower :: "string \<Rightarrow> string" where
  "lower s = map lower_char s"

text \<open>\<^verbatim>\<open>s.endswith(e)\<close>.\<close>

definition endswith :: "string \<Rightarrow> string \<Rightarrow> bool" where
  "endswith s e = (length e \<le> length s \<and> drop (length s - length e) s = e)"

text \<open>\<^verbatim>\<open>s.split(sep)\<close> for a one-character separator: never the empty list.\<close>

fun split :: "char \<Rightarrow> string \<Rightarrow> string list" where
  "split sep [] = [[]]"
| "split sep (c # cs) =
     (if c = sep then [] # split sep cs
      else (case split sep cs of
              [] \<Rightarrow> [[c]]
            | t # ts \<Rightarrow> (c # t) # ts))"

text \<open>\<^verbatim>\<open>s.lstrip('.')\<close>.\<close>

definition lstrip_dot :: "string \<Rightarrow> string" where
  "lstrip_dot s = dropWhile (\<lambda>c. c = CHR ''.'') s"

text \<open>The list comprehension \<^verbatim>\<open>[f".{ext.lstrip('.')}" for ext in s.split(',')]\<close>.\<close>

definition dotted_exts :: "string \<Rightarrow> string list" where
  "dotted_exts s = map (\<lambda>ext. CHR ''.'' # lstrip_dot ext) (split CHR '','' s)"

text \<open>\<^verbatim>\<open>any(file_path.lower().endswith(ext.lower()) for ext in exts)\<close>.\<close>

definition any_endswith :: "string \<Rightarrow> string list \<Rightarrow> bool" where
  "any_endswith file_path exts = list_ex (\<lambda>ext. endswith (lower file_path) (lower ext)) exts"

subsection \<open>Exceptions, the command line and the operating system\<close>

text \<open>An exception caught by \<^verbatim>\<open>except Exception as e\<close>, carrying \<^verbatim>\<open>str(e)\<close>.\<close>

datatype exn = Exception string

fun str_exn :: "exn \<Rightarrow> string" where
  "str_exn (Exception msg) = msg"

text \<open>
  The namespace returned by \<^verbatim>\<open>parse_arguments\<close>. An option that was not given is
  \<open>None\<close> (\<open>include_arg\<close> and \<open>exclude_arg\<close> are \<^verbatim>\<open>args.include\<close> and
  \<^verbatim>\<open>args.exclude\<close>, \<open>output_arg\<close> is \<^verbatim>\<open>args.output\<close>); \<open>max_size\<close> is in
  kilobytes (``Maximum file size in KB to process'').
\<close>

record args =
  path :: string
  include_arg :: "string option"
  exclude_arg :: "string option"
  max_size :: "int option"
  include_binary :: bool
  output_arg :: string
  format :: string
  comment_style :: int
  recursive :: bool

text \<open>The result of \<^verbatim>\<open>os.stat\<close>: the size and the two timestamps that are read.\<close>

type_synonym timestamp = int

record stat_result =
  st_size :: int
  st_ctime :: timestamp
  st_mtime :: timestamp

text \<open>
  A \<^verbatim>\<open>datetime\<close> object is only ever formatted, so it is represented by its
  \<^verbatim>\<open>str()\<close>.
\<close>

type_synonym datetime = string

record world =
  isfile :: "string \<Rightarrow> bool"
  access_R_OK :: "string \<Rightarrow> bool"
  abspath :: "string \<Rightarrow> string"
  getsize :: "string \<Rightarrow> exn + int"
  open_rb :: "string \<Rightarrow> exn + byte list"
  stat :: "string \<Rightarrow> exn + stat_result"
  fromtimestamp :: "timestamp \<Rightarrow> exn + datetime"
  relpath :: "string \<Rightarrow> string \<Rightarrow> exn + string"
  open_r :: "string \<Rightarrow> exn + byte list"
  isdir :: "string \<Rightarrow> bool"
  walk :: "string \<Rightarrow> (string \<times> string list \<times> string list) list"
  listdir :: "string \<Rightarrow> exn + string list"
  join :: "string \<Rightarrow> string \<Rightarrow> string"
  open_w :: "string \<Rightarrow> exn + unit"
  now :: string

subsection \<open>The filter: \<^verbatim>\<open>should_process_file\<close>\<close>

text \<open>Truthiness of an optional integer and of an optional string.\<close>

fun truthy_int :: "int option \<Rightarrow> bool" where
  "truthy_int None = False"
| "truthy_int (Some n) = (n \<noteq> 0)"

fun truthy_str :: "string option \<Rightarrow> bool" where
  "truthy_str None = False"
| "truthy_str (Some s) = (s \<noteq> [])"

text \<open>
  The rules after the size rule touch no file: \<^verbatim>\<open>args.include\<close> and
  \<^verbatim>\<open>args.exclude\<close>.
\<close>

definition extension_rules :: "string \<Rightarrow> args \<Rightarrow> bool" where
  "extension_rules file_path a =
     (if truthy_str (include_arg a) \<and> \<not> any_endswith file_path (dotted_exts (the (include_arg a)))
      then False
      else if truthy_str (exclude_arg a) \<and> any_endswith file_path (dotted_exts (the (exclude_arg a)))
      then False
      else True)"

definition should_process_file :: "world \<Rightarrow> string \<Rightarrow> args \<Rightarrow> exn + bool" where
  "should_process_file w file_path a =
     (if \<not> isfile w file_path \<or> \<not> access_R_OK w file_path then Inr False
      else if abspath w file_path = abspath w (output_arg a) then Inr False
      else if truthy_int (max_size a) then
        (case getsize w file_path of
           Inl e \<Rightarrow> Inl e
         | Inr sz \<Rightarrow>
             if sz > the (max_size a) * 1024 then Inr False
             else Inr (extension_rules file_path a))
      else Inr (extension_rules file_path a))"

subsection \<open>Helpers: \<^verbatim>\<open>is_binary\<close>, \<^verbatim>\<open>get_human_readable_size\<close>, \<^verbatim>\<open>get_file_metadata\<close>\<close>

text \<open>
  \<^verbatim>\<open>bytes.decode('utf-8')\<close> with the default strict error handler: \<open>None\<close> is
  \<^verbatim>\<open>UnicodeDecodeError\<close>. Overlong forms, surrogates and code points above
  \<open>0x10FFFF\<close> are rejected, as is a sequence cut short by the end of the input.
\<close>

definition continuation :: "byte \<Rightarrow> bool" where
  "continuation b = (0x80 \<le> b \<and> b \<le> 0xBF)"

definition low6 :: "byte \<Rightarrow> nat" where
  "low6 b = unat b - 0x80"

fun utf8_decode :: "byte list \<Rightarrow> nat list option" where
  "utf8_decode [] = Some []"
| "utf8_decode (b0 # bs) =
     (if b0 < 0x80 then map_option (\<lambda>cps. unat b0 # cps) (utf8_decode bs)
      else if 0xC2 \<le> b0 \<and> b0 \<le> 0xDF then
        (case bs of
           b1 # rest \<Rightarrow>
             if continuation b1
             then map_option (\<lambda>cps. ((unat b0 - 0xC0) * 64 + low6 b1) # cps) (utf8_decode rest)
             else None
         | _ \<Rightarrow> None)
      else if 0xE0 \<le> b0 \<and> b0 \<le> 0xEF then
        (case bs of
           b1 # b2 # rest \<Rightarrow>
             if (if b0 = 0xE0 then 0xA0 else 0x80) \<le> b1
                \<and> b1 \<le> (if b0 = 0xED then 0x9F else 0xBF) \<and> continuation b2
             then map_option
                    (\<lambda>cps. ((unat b0 - 0xE0) * 4096 + low6 b1 * 64 + low6 b2) # cps)
                    (utf8_decode rest)
             else None
         | _ \<Rightarrow> None)
      else if 0xF0 \<le> b0 \<and> b0 \<le> 0xF4 then
        (case bs of
           b1 # b2 # b3 # rest \<Rightarrow>
             if (if b0 = 0xF0 then 0x90 else 0x80) \<le> b1
                \<and> b1 \<le> (if b0 = 0xF4 then 0x8F else 0xBF)
                \<and> continuation b2 \<and> continuation b3
             then map_option
                    (\<lambda>cps. ((unat b0 - 0xF0) * 262144 + low6 b1 * 4096 + low6 b2 * 64 + low6 b3)
                             # cps)
                    (utf8_decode rest)
             else None
         | _ \<Rightarrow> None)
      else None)"

text \<open>
  \<^verbatim>\<open>is_binary(file_path, sample_size=8192)\<close>. \<open>open_rb\<close> gives the bytes of the file, or
  the exception that \<^verbatim>\<open>open\<close> or \<^verbatim>\<open>read\<close> raised; \<^verbatim>\<open>f.read(sample_size)\<close> is
  the first \<open>sample_size\<close> of them.
\<close>

definition is_binary :: "world \<Rightarrow> string \<Rightarrow> nat \<Rightarrow> bool" where
  "is_binary w file_path sample_size =
     (case open_rb w file_path of
        Inl e \<Rightarrow> True
      | Inr bs \<Rightarrow>
          (let chunk = take sample_size bs in
           if 0 \<in> set chunk then True
           else (case utf8_decode chunk of Some decoded \<Rightarrow> False | None \<Rightarrow> True)))"

text \<open>\<^verbatim>\<open>str(n)\<close> for an integer.\<close>

definition digit_char :: "nat \<Rightarrow> char" where
  "digit_char d = char_of (48 + d)"

function str_nat :: "nat \<Rightarrow> string" where
  "str_nat n = (if n < 10 then [digit_char n] else str_nat (n div 10) @ [digit_char (n mod 10)])"
  by pat_completeness auto
termination
  by (relation "measure id") auto

declare str_nat.simps [simp del]

function str_digits :: "int \<Rightarrow> string" where
  "str_digits i =
     (if i < 10 then [digit_char (nat i)]
      else str_digits (i div 10) @ [digit_char (nat (i mod 10))])"
  by pat_completeness auto
termination
  by (relation "measure nat") auto

declare str_digits.simps [simp del]

definition str_int :: "int \<Rightarrow> string" where
  "str_int i = (if i < 0 then CHR ''-'' # str_digits (- i) else str_digits i)"

text \<open>
  \<^verbatim>\<open>f"{num / den:.2f}"\<close> for \<open>0 \<le> num\<close> and \<open>den\<close> a power of two. Python divides the
  two integers into the nearest float (ties to even) and prints that float with two decimals,
  again rounded to nearest (ties to even). Dividing by a power of two is exact, so the
  float is the nearest integer with 53 significant bits to \<open>num\<close>, over \<open>den\<close>. A size is
  below \<open>2 ^ 1024\<close>, from where on the division raises \<^verbatim>\<open>OverflowError\<close>: it is the
  \<^verbatim>\<open>st_size\<close> of a file, a 64-bit number, or the sum over the files of a run.
\<close>

definition round_half_even :: "int \<Rightarrow> int \<Rightarrow> int" where
  "round_half_even num den =
     (let q = num div den; r = num mod den
      in if 2 * r > den \<or> (2 * r = den \<and> odd q) then q + 1 else q)"

function bit_length :: "int \<Rightarrow> nat" where
  "bit_length n = (if n \<le> 0 then 0 else Suc (bit_length (n div 2)))"
  by pat_completeness auto
termination
  by (relation "measure nat") auto

declare bit_length.simps [simp del]

definition float_of_int :: "int \<Rightarrow> int" where
  "float_of_int n =
     (if n < 2 ^ 53 then n
      else (let e = bit_length n - 53 in round_half_even n (2 ^ e) * 2 ^ e))"

definition format_2f :: "int \<Rightarrow> int \<Rightarrow> string" where
  "format_2f num den =
     (let h = round_half_even (float_of_int num * 100) den
      in str_int (h div 100) @ ''.''
         @ str_nat (nat (h mod 100) div 10) @ str_nat (nat (h mod 100) mod 10))"

definition get_human_readable_size :: "int \<Rightarrow> string" where
  "get_human_readable_size size_bytes =
     (if size_bytes > 1024 * 1024 then format_2f size_bytes (1024 * 1024) @ '' MB''
      else if size_bytes > 1024 then format_2f size_bytes 1024 @ '' KB''
      else str_int size_bytes @ '' bytes'')"

text \<open>
  The dictionary returned by \<^verbatim>\<open>get_file_metadata\<close>. \<open>size_md\<close> is the key
  \<^verbatim>\<open>"size"\<close>; \<open>created\<close> and \<open>modified\<close> hold a \<^verbatim>\<open>datetime\<close> or the string
  \<^verbatim>\<open>"Unknown"\<close>; the key \<^verbatim>\<open>"error"\<close> is only there after a failure.
\<close>

datatype timeval = Datetime datetime | Str string

fun str_timeval :: "timeval \<Rightarrow> string" where
  "str_timeval (Datetime d) = d"
| "str_timeval (Str s) = s"

record metadata =
  size_md :: int
  size_str :: string
  created :: timeval
  modified :: timeval
  error_md :: "string option"

definition metadata_unknown :: "exn \<Rightarrow> metadata" where
  "metadata_unknown e =
     \<lparr>size_md = 0, size_str = ''Unknown'', created = Str ''Unknown'',
      modified = Str ''Unknown'', error_md = Some (str_exn e)\<rparr>"

definition get_file_metadata :: "world \<Rightarrow> string \<Rightarrow> metadata" where
  "get_file_metadata w file_path =
     (case stat w file_path of
        Inl e \<Rightarrow> metadata_unknown e
      | Inr stats \<Rightarrow>
          (case fromtimestamp w (st_ctime stats) of
             Inl e \<Rightarrow> metadata_unknown e
           | Inr created_dt \<Rightarrow>
               (case fromtimestamp w (st_mtime stats) of
                  Inl e \<Rightarrow> metadata_unknown e
                | Inr modified_dt \<Rightarrow>
                    \<lparr>size_md = st_size stats,
                     size_str = get_human_readable_size (st_size stats),
                     created = Datetime created_dt,
                     modified = Datetime modified_dt,
                     error_md = None\<rparr>)))"

subsection \<open>One file: \<^verbatim>\<open>build_file_header\<close> and \<^verbatim>\<open>process_file\<close>\<close>

definition nl :: string where
  "nl = [CHR 0x0A]"

text \<open>
  \<^verbatim>\<open>os.path.relpath\<close> raises \<^verbatim>\<open>ValueError\<close> on some pairs of paths, so the
  function may raise; the caller has it inside its \<^verbatim>\<open>try\<close>.
\<close>

definition build_file_header ::
  "world \<Rightarrow> string \<Rightarrow> args \<Rightarrow> metadata \<Rightarrow> string \<Rightarrow> exn + (string \<times> string)" where
  "build_file_header w file_path a md cs =
     (case relpath w file_path (path a) of
        Inl e \<Rightarrow> Inl e
      | Inr rel_path \<Rightarrow>
          Inr (if format a = ''text'' then
                 (cs @ '' File: '' @ rel_path @ nl
                  @ cs @ '' Size: '' @ size_str md @ nl
                  @ cs @ '' Created: '' @ str_timeval (created md) @ nl
                  @ cs @ '' Modified: '' @ str_timeval (modified md) @ nl
                  @ cs @ '' '' @ replicate 80 CHR ''='' @ nl,
                  nl @ nl)
               else if format a = ''md'' then
                 (''## '' @ rel_path @ nl @ nl
                  @ ''- Size: '' @ size_str md @ nl
                  @ ''- Created: '' @ str_timeval (created md) @ nl
                  @ ''- Modified: '' @ str_timeval (modified md) @ nl @ nl
                  @ ''```'' @ nl,
                  ''```'' @ nl @ nl)
               else if format a = ''html'' then
                 (''<div class='' @ [CHR 0x27] @ ''file'' @ [CHR 0x27] @ ''>'' @ nl
                  @ ''<h2>'' @ rel_path @ ''</h2>'' @ nl
                  @ ''<div class='' @ [CHR 0x27] @ ''metadata'' @ [CHR 0x27] @ ''>'' @ nl
                  @ ''<p>Size: '' @ size_str md @ ''</p>'' @ nl
                  @ ''<p>Created: '' @ str_timeval (created md) @ ''</p>'' @ nl
                  @ ''<p>Modified: '' @ str_timeval (modified md) @ ''</p>'' @ nl
                  @ ''</div>'' @ nl
                  @ ''<pre><code>'' @ nl,
                  ''</code></pre>'' @ nl @ ''</div>'' @ nl @ nl)
               else
                 (''# '' @ rel_path @ nl @ nl, nl @ nl)))"

text \<open>
  Text read from a file opened with \<^verbatim>\<open>open(file_path, 'r', encoding='utf-8')\<close>: the
  decoded code points, with \<^verbatim>\<open>\r\n\<close> and a lone \<^verbatim>\<open>\r\<close> turned into \<^verbatim>\<open>\n\<close>
  (the default newline mode).
\<close>

type_synonym unicode = "nat list"

definition str :: "string \<Rightarrow> unicode" where
  "str s = map of_char s"

fun universal_newlines :: "unicode \<Rightarrow> unicode" where
  "universal_newlines [] = []"
| "universal_newlines [c] = [if c = 13 then 10 else c]"
| "universal_newlines (c # d # cs) =
     (if c = 13 \<and> d = 10 then 10 # universal_newlines cs
      else if c = 13 then 10 # universal_newlines (d # cs)
      else c # universal_newlines (d # cs))"

text \<open>
  The loop \<^verbatim>\<open>for chunk in iter(lambda: infile.read(chunk_size), ''): content += chunk\<close>,
  on the text that is still unread.
\<close>

function read_chunks :: "nat \<Rightarrow> unicode \<Rightarrow> unicode \<Rightarrow> unicode" where
  "read_chunks chunk_size unread content =
     (if take chunk_size unread = [] then content
      else read_chunks chunk_size (drop chunk_size unread) (content @ take chunk_size unread))"
  by pat_completeness auto
termination
  by (relation "measure (\<lambda>(chunk_size, unread, content). length unread)") auto

declare read_chunks.simps [simp del]

text \<open>
  The dictionary returned by \<^verbatim>\<open>process_file\<close>, one constructor for each set of keys
  it is built with; \<open>status\<close> is the key \<^verbatim>\<open>'status'\<close>.
\<close>

datatype result =
    Success string metadata string unicode string
  | Skipped string string
  | Error string string

fun status :: "result \<Rightarrow> string" where
  "status (Success file_path md header content footer) = ''success''"
| "status (Skipped file_path reason) = ''skipped''"
| "status (Error file_path reason) = ''error''"

fun file_path_of :: "result \<Rightarrow> string" where
  "file_path_of (Success file_path md header content footer) = file_path"
| "file_path_of (Skipped file_path reason) = file_path"
| "file_path_of (Error file_path reason) = file_path"

text \<open>
  \<^verbatim>\<open>process_file\<close>. The filter and the binary check are outside the \<^verbatim>\<open>try\<close>;
  \<open>open_r\<close> gives the bytes of the file or the exception raised by \<^verbatim>\<open>open\<close> or by a
  \<^verbatim>\<open>read\<close>. The decoder of the file object raises \<^verbatim>\<open>UnicodeDecodeError\<close> in the
  \<^verbatim>\<open>read\<close> that meets the first invalid byte and what was read before is dropped, so
  the bytes are decoded as a whole here.
\<close>

definition process_file :: "world \<Rightarrow> args \<Rightarrow> string \<Rightarrow> string \<Rightarrow> exn + result" where
  "process_file w a file_path cs =
     (case should_process_file w file_path a of
        Inl e \<Rightarrow> Inl e
      | Inr ok \<Rightarrow>
          if \<not> ok then Inr (Skipped file_path ''filtered out by rules'')
          else if is_binary w file_path 8192 \<and> \<not> include_binary a
          then Inr (Skipped file_path ''binary file'')
          else
            (let md = get_file_metadata w file_path in
             case build_file_header w file_path a md cs of
               Inl e \<Rightarrow> Inr (Error file_path (str_exn e))
             | Inr (header, footer) \<Rightarrow>
                 (case open_r w file_path of
                    Inl e \<Rightarrow> Inr (Error file_path (str_exn e))
                  | Inr bs \<Rightarrow>
                      (case utf8_decode bs of
                         None \<Rightarrow> Inr (Skipped file_path ''encoding error'')
                       | Some decoded \<Rightarrow>
                           Inr (Success file_path md header
                                  (read_chunks 4096 (universal_newlines decoded) [])
                                  footer)))))"

subsection \<open>The document: \<^verbatim>\<open>write_output_header\<close> and \<^verbatim>\<open>write_output_footer\<close>\<close>

text \<open>
  The dictionary \<^verbatim>\<open>stats\<close> of \<^verbatim>\<open>main\<close>.
\<close>

record stats =
  processed :: nat
  skipped :: nat
  errors :: nat
  total_size :: int
  total_size_str :: string

definition sq :: string where
  "sq = [CHR 0x27]"

text \<open>
  What \<^verbatim>\<open>write_output_header\<close> writes; \<open>now\<close> is the formatted current time. A format
  other than the three writes nothing.
\<close>

definition write_output_header :: "world \<Rightarrow> args \<Rightarrow> string" where
  "write_output_header w a =
     (if format a = ''text'' then
        ''# Combined Files from '' @ path a @ nl
        @ ''# Generated on: '' @ now w @ nl
        @ ''# '' @ replicate 80 CHR ''='' @ nl @ nl
      else if format a = ''md'' then
        ''# Combined Files from '' @ path a @ nl @ nl
        @ ''Generated on: '' @ now w @ nl @ nl
        @ ''---'' @ nl @ nl
      else if format a = ''html'' then
        ''<!DOCTYPE html>'' @ nl
        @ ''<html lang='' @ sq @ ''en'' @ sq @ ''>'' @ nl
        @ ''<head>'' @ nl
        @ ''    <meta charset='' @ sq @ ''UTF-8'' @ sq @ ''>'' @ nl
        @ ''    <meta name='' @ sq @ ''viewport'' @ sq @ '' content='' @ sq
          @ ''width=device-width, initial-scale=1.0'' @ sq @ ''>'' @ nl
        @ ''    <title>Combined Files from '' @ path a @ ''</title>'' @ nl
        @ ''    <style>'' @ nl
        @ ''        body { font-family: Arial, sans-serif; margin: 20px; }'' @ nl
        @ ''        .file { margin-bottom: 30px; border: 1px solid #ddd; padding: 15px; border-radius: 5px; }'' @ nl
        @ ''        .metadata { color: #666; margin-bottom: 10px; }'' @ nl
        @ ''        h1 { color: #333; }'' @ nl
        @ ''        h2 { color: #0066cc; }'' @ nl
        @ ''        pre { background-color: #f5f5f5; padding: 10px; border-radius: 5px; overflow: auto; }'' @ nl
        @ ''    </style>'' @ nl
        @ ''</head>'' @ nl
        @ ''<body>'' @ nl
        @ ''<h1>Combined Files from '' @ path a @ ''</h1>'' @ nl
        @ ''<p>Generated on: '' @ now w @ ''</p>'' @ nl @ nl
      else [])"

definition write_output_footer :: "args \<Rightarrow> stats \<Rightarrow> string" where
  "write_output_footer a st =
     (if format a = ''text'' then
        ''# '' @ replicate 80 CHR ''='' @ nl
        @ ''# Summary Statistics'' @ nl
        @ ''# Files processed: '' @ str_nat (processed st) @ nl
        @ ''# Files skipped: '' @ str_nat (skipped st) @ nl
        @ ''# Total size: '' @ total_size_str st @ nl
      else if format a = ''md'' then
        ''## Summary Statistics'' @ nl @ nl
        @ ''- Files processed: '' @ str_nat (processed st) @ nl
        @ ''- Files skipped: '' @ str_nat (skipped st) @ nl
        @ ''- Total size: '' @ total_size_str st @ nl
      else if format a = ''html'' then
        ''<div class='' @ sq @ ''summary'' @ sq @ ''>'' @ nl
        @ ''<h2>Summary Statistics</h2>'' @ nl
        @ ''<p>Files processed: '' @ str_nat (processed st) @ ''</p>'' @ nl
        @ ''<p>Files skipped: '' @ str_nat (skipped st) @ ''</p>'' @ nl
        @ ''<p>Total size: '' @ total_size_str st @ ''</p>'' @ nl
        @ ''</div>'' @ nl
        @ ''</body>'' @ nl
        @ ''</html>'' @ nl
      else [])"

subsection \<open>The run: \<^verbatim>\<open>get_all_files\<close>, the thread pool and \<^verbatim>\<open>main\<close>\<close>

text \<open>
  \<^verbatim>\<open>get_all_files\<close>. \<open>walk\<close> is the list of triples that \<^verbatim>\<open>os.walk\<close> yields (it
  swallows the errors of the directories it cannot list); \<^verbatim>\<open>os.listdir\<close> may raise.
\<close>

definition get_all_files :: "world \<Rightarrow> string \<Rightarrow> bool \<Rightarrow> exn + string list" where
  "get_all_files w directory rec =
     (if rec then
        Inr (concat (map (\<lambda>(root, dirs, files). map (\<lambda>file. join w root file) files)
                         (walk w directory)))
      else
        (case listdir w directory of
           Inl e \<Rightarrow> Inl e
         | Inr items \<Rightarrow>
             Inr (filter (\<lambda>item_path. isfile w item_path)
                         (map (\<lambda>item. join w directory item) items))))"

text \<open>
  \<^verbatim>\<open>ThreadPoolExecutor.map(fn, tasks)\<close>. The executor submits every task at once and
  keeps one future per task, in the order of the tasks; the workers finish the tasks in
  an order that the program does not control; the iterator that \<^verbatim>\<open>map\<close> returns
  yields the results of the futures in the order of the tasks, waiting for each.

  \<open>futures\<close> is the list of the futures (\<open>None\<close>: not finished), \<open>finish\<close> is a worker
  finishing task \<open>i\<close>, \<open>run_workers\<close> finishes the tasks in the order \<open>completion\<close>, and
  \<open>executor_map\<close> is the list that the iterator yields, \<open>None\<close> when a future never
  finishes (the iterator waits forever).
\<close>

definition finish :: "('t \<Rightarrow> 'r) \<Rightarrow> 't list \<Rightarrow> 'r option list \<Rightarrow> nat \<Rightarrow> 'r option list" where
  "finish fn tasks futures i =
     (if i < length futures then futures[i := Some (fn (tasks ! i))] else futures)"

definition run_workers :: "('t \<Rightarrow> 'r) \<Rightarrow> 't list \<Rightarrow> nat list \<Rightarrow> 'r option list" where
  "run_workers fn tasks completion =
     foldl (finish fn tasks) (replicate (length tasks) None) completion"

fun wait_all :: "'r option list \<Rightarrow> 'r list option" where
  "wait_all [] = Some []"
| "wait_all (None # fs) = None"
| "wait_all (Some r # fs) = map_option (\<lambda>rs. r # rs) (wait_all fs)"

definition executor_map :: "('t \<Rightarrow> 'r) \<Rightarrow> 't list \<Rightarrow> nat list \<Rightarrow> 'r list option" where
  "executor_map fn tasks completion = wait_all (run_workers fn tasks completion)"

text \<open>
  The loop \<^verbatim>\<open>for result in executor.map(...): results.append(result)\<close>: a task that
  raised re-raises in the loop when its turn comes.
\<close>

fun collect :: "(exn + result) list \<Rightarrow> result list \<Rightarrow> exn + result list" where
  "collect [] results = Inr results"
| "collect (Inl e # outcomes) results = Inl e"
| "collect (Inr r # outcomes) results = collect outcomes (results @ [r])"

text \<open>The three list comprehensions over \<^verbatim>\<open>results\<close>.\<close>

definition successful :: "result list \<Rightarrow> result list" where
  "successful results = filter (\<lambda>r. status r = ''success'') results"

definition skipped_results :: "result list \<Rightarrow> result list" where
  "skipped_results results = filter (\<lambda>r. status r = ''skipped'') results"

definition error_results :: "result list \<Rightarrow> result list" where
  "error_results results = filter (\<lambda>r. status r = ''error'') results"

text \<open>
  \<^verbatim>\<open>r['metadata']['size']\<close> and the three writes of a result; both are only applied
  to the elements of \<open>successful\<close>.
\<close>

fun metadata_size :: "result \<Rightarrow> int" where
  "metadata_size (Success file_path md header content footer) = size_md md"
| "metadata_size r = 0"

fun written :: "result \<Rightarrow> unicode" where
  "written (Success file_path md header content footer) = str header @ content @ str footer"
| "written r = []"

definition calc_stats :: "result list \<Rightarrow> stats" where
  "calc_stats results =
     (let total = sum_list (map metadata_size (successful results)) in
      \<lparr>processed = length (successful results),
       skipped = length (skipped_results results) + length (error_results results),
       errors = length (error_results results),
       total_size = total,
       total_size_str = get_human_readable_size total\<rparr>)"

definition body :: "result list \<Rightarrow> unicode" where
  "body results = concat (map written (successful results))"

definition document :: "world \<Rightarrow> args \<Rightarrow> result list \<Rightarrow> unicode" where
  "document w a results =
     str (write_output_header w a) @ body results
     @ str (write_output_footer a (calc_stats results))"

text \<open>
  What a run leaves behind: the exit code, the text written to the output file, the
  statistics, and the two counts that the summary prints beside them
  (\<^verbatim>\<open>len(skipped)\<close> and \<^verbatim>\<open>len(errors)\<close>).
\<close>

record run =
  exit_code :: int
  output_file :: "unicode option"
  run_stats :: "stats option"
  printed_skipped :: nat
  printed_errors :: nat

text \<open>
  \<^verbatim>\<open>main\<close>, given the order in which the workers finish. \<open>None\<close>: the run never ends;
  \<open>Some (Inl e)\<close>: the run dies with the exception \<open>e\<close>.
\<close>

definition main :: "world \<Rightarrow> args \<Rightarrow> nat list \<Rightarrow> (exn + run) option" where
  "main w a completion =
     (if \<not> isdir w (path a) then
        Some (Inr \<lparr>exit_code = 1, output_file = None, run_stats = None,
                   printed_skipped = 0, printed_errors = 0\<rparr>)
      else
        (let cs = (if comment_style a = 1 then ''//'' else ''#'') in
         case get_all_files w (path a) (recursive a) of
           Inl e \<Rightarrow> Some (Inl e)
         | Inr all_files \<Rightarrow>
             (case executor_map (\<lambda>file_path. process_file w a file_path cs) all_files completion of
                None \<Rightarrow> None
              | Some outcomes \<Rightarrow>
                  (case collect outcomes [] of
                     Inl e \<Rightarrow> Some (Inl e)
                   | Inr results \<Rightarrow>
                       (case open_w w (output_arg a) of
                          Inl e \<Rightarrow> Some (Inl e)
                        | Inr u \<Rightarrow>
                            Some (Inr \<lparr>exit_code = 0,
                                       output_file = Some (document w a results),
                                       run_stats = Some (calc_stats results),
                                       printed_skipped = length (skipped_results results),
                                       printed_errors = length (error_results results)\<rparr>))))))"

subsection \<open>Well-formed UTF-8\<close>

text \<open>
  UTF-8 as the Unicode standard defines it, to compare the decoder with: the code points that
  may be encoded are the scalar values (no surrogates, nothing above \<open>0x10FFFF\<close>), each
  has one encoding of one to four bytes, and a byte string is well formed when it is the
  concatenation of the encodings of scalar values.
\<close>

definition scalar_value :: "nat \<Rightarrow> bool" where
  "scalar_value cp = (cp < 0xD800 \<or> (0xE000 \<le> cp \<and> cp < 0x110000))"

definition byte :: "nat \<Rightarrow> byte" where
  "byte n = of_nat n"

definition utf8_encode :: "nat \<Rightarrow> byte list" where
  "utf8_encode cp =
     (if cp < 0x80 then [byte cp]
      else if cp < 0x800 then [byte (0xC0 + cp div 64), byte (0x80 + cp mod 64)]
      else if cp < 0x10000 then
        [byte (0xE0 + cp div 4096), byte (0x80 + cp div 64 mod 64), byte (0x80 + cp mod 64)]
      else
        [byte (0xF0 + cp div 262144), byte (0x80 + cp div 4096 mod 64),
         byte (0x80 + cp div 64 mod 64), byte (0x80 + cp mod 64)])"

definition well_formed_utf8 :: "byte list \<Rightarrow> bool" where
  "well_formed_utf8 bs = (\<exists>cps. list_all scalar_value cps \<and> bs = concat (map utf8_encode cps))"

subsection \<open>A directory to run the program on\<close>

text \<open>
  A directory \<^verbatim>\<open>root\<close> that holds the given files and does not change during the run:
  every call succeeds and all calls agree. The theorems below are tried on it and on
  variants of it in which one call fails.
\<close>

definition ascii :: "string \<Rightarrow> byte list" where
  "ascii s = map (\<lambda>c. of_nat (of_char c)) s"

definition lookup_file :: "(string \<times> byte list) list \<Rightarrow> string \<Rightarrow> exn + byte list" where
  "lookup_file files p =
     (case map_of (map (\<lambda>(name, bs). (''root/'' @ name, bs)) files) p of
        None \<Rightarrow> Inl (Exception ''No such file or directory'')
      | Some bs \<Rightarrow> Inr bs)"

definition directory :: "(string \<times> byte list) list \<Rightarrow> world" where
  "directory files =
     \<lparr>isfile = (\<lambda>p. \<not> isl (lookup_file files p)),
      access_R_OK = (\<lambda>p. \<not> isl (lookup_file files p)),
      abspath = (\<lambda>p. ''/home/user/'' @ p),
      getsize = (\<lambda>p. map_sum id (\<lambda>bs. int (length bs)) (lookup_file files p)),
      open_rb = lookup_file files,
      stat = (\<lambda>p. map_sum id
                      (\<lambda>bs. \<lparr>st_size = int (length bs), st_ctime = 1700000000,
                              st_mtime = 1700000000\<rparr>)
                      (lookup_file files p)),
      fromtimestamp = (\<lambda>t. Inr ''2023-11-14 22:13:20''),
      relpath = (\<lambda>p start. Inr (drop (length start + 1) p)),
      open_r = lookup_file files,
      isdir = (\<lambda>p. p = ''root''),
      walk = (\<lambda>d. [(d, [], map fst files)]),
      listdir = (\<lambda>d. Inr (map fst files)),
      join = (\<lambda>d f. d @ ''/'' @ f),
      open_w = (\<lambda>p. Inr ()),
      now = ''2024-01-01 12:00:00''\<rparr>"

definition plain_args :: args where
  "plain_args =
     \<lparr>path = ''root'', include_arg = None, exclude_arg = None, max_size = None,
      include_binary = False, output_arg = ''combined_files.txt'', format = ''text'',
      comment_style = 2, recursive = True\<rparr>"

definition scenario_files :: "(string \<times> byte list) list" where
  "scenario_files =
     [(''a.txt'', ascii ''hello''), (''b.bin'', [0x00, 0x01, 0x02]), (''c.log'', ascii ''world'')]"

definition scenario_args :: args where
  "scenario_args = plain_args\<lparr>exclude_arg := Some ''.bin''\<rparr>"

text \<open>What the worker returns for the three paths of the scenario.\<close>

definition scenario_metadata :: metadata where
  "scenario_metadata =
     \<lparr>size_md = 5, size_str = ''5 bytes'', created = Datetime ''2023-11-14 22:13:20'',
      modified = Datetime ''2023-11-14 22:13:20'', error_md = None\<rparr>"

definition scenario_header :: "string \<Rightarrow> string" where
  "scenario_header rel_path =
     ''# File: '' @ rel_path @ nl
     @ ''# Size: 5 bytes'' @ nl
     @ ''# Created: 2023-11-14 22:13:20'' @ nl
     @ ''# Modified: 2023-11-14 22:13:20'' @ nl
     @ ''# '' @ replicate 80 CHR ''='' @ nl"

definition scenario_result :: "string \<Rightarrow> result" where
  "scenario_result p =
     (if p = ''root/b.bin'' then Skipped p ''filtered out by rules''
      else Success p scenario_metadata (scenario_header (drop 5 p))
             (str (if p = ''root/a.txt'' then ''hello'' else ''world'')) (nl @ nl))"

text \<open>The successes of a list of results, as the tuples of their fields.\<close>

fun successes :: "result list \<Rightarrow> (string \<times> metadata \<times> string \<times> unicode \<times> string) list" where
  "successes [] = []"
| "successes (Success p md h c f # rs) = (p, md, h, c, f) # successes rs"
| "successes (r # rs) = successes rs"

subsection \<open>The filter as a list of rules\<close>

text \<open>
  The five rules of the filter, each on its own, and their evaluation in order, stopping at
  the first rule that fails. Only the size rule reads the size, so only it can raise. An
  extension token matches a path when the token, with its leading dots replaced by one dot,
  is a suffix of the path, both in lower case.
\<close>

definition token_matches :: "string \<Rightarrow> string \<Rightarrow> bool" where
  "token_matches file_path token =
     suffix (lower (CHR ''.'' # dropWhile (\<lambda>c. c = CHR ''.'') token)) (lower file_path)"

definition rule_regular_readable :: "world \<Rightarrow> string \<Rightarrow> exn + bool" where
  "rule_regular_readable w file_path = Inr (isfile w file_path \<and> access_R_OK w file_path)"

definition rule_not_output :: "world \<Rightarrow> string \<Rightarrow> args \<Rightarrow> exn + bool" where
  "rule_not_output w file_path a = Inr (abspath w file_path \<noteq> abspath w (output_arg a))"

definition rule_max_size :: "world \<Rightarrow> string \<Rightarrow> args \<Rightarrow> exn + bool" where
  "rule_max_size w file_path a =
     (case max_size a of
        None \<Rightarrow> Inr True
      | Some kb \<Rightarrow>
          if kb = 0 then Inr True
          else map_sum id (\<lambda>sz. sz \<le> kb * 1024) (getsize w file_path))"

definition rule_include :: "string \<Rightarrow> args \<Rightarrow> exn + bool" where
  "rule_include file_path a =
     (case include_arg a of
        None \<Rightarrow> Inr True
      | Some tokens \<Rightarrow>
          Inr (tokens = [] \<or> list_ex (token_matches file_path) (split CHR '','' tokens)))"

definition rule_exclude :: "string \<Rightarrow> args \<Rightarrow> exn + bool" where
  "rule_exclude file_path a =
     (case exclude_arg a of
        None \<Rightarrow> Inr True
      | Some tokens \<Rightarrow>
          Inr (tokens = [] \<or> \<not> list_ex (token_matches file_path) (split CHR '','' tokens)))"

fun first_failing :: "(exn + bool) list \<Rightarrow> exn + bool" where
  "first_failing [] = Inr True"
| "first_failing (Inl e # rules) = Inl e"
| "first_failing (Inr passed # rules) = (if passed then first_failing rules else Inr False)"

section \<open>Properties\<close>

subsection \<open>Auxiliary facts\<close>

lemma endswith_suffix: "endswith s e = suffix e s"
proof
  assume "endswith s e"
  then have "s = take (length s - length e) s @ e"
    by (metis append_take_drop_id endswith_def)
  then show "suffix e s" by (metis suffixI)
next
  assume "suffix e s"
  then obtain zs where "s = zs @ e" by (auto simp: suffix_def)
  then show "endswith s e" by (simp add: endswith_def)
qed

lemma read_chunks_all: "0 < n \<Longrightarrow> read_chunks n unread content = content @ unread"
proof (induction n unread content rule: read_chunks.induct)
  case (1 chunk_size unread content)
  show ?case
  proof (cases "take chunk_size unread = []")
    case True
    with "1.prems" have "unread = []" by simp
    then show ?thesis by (subst read_chunks.simps) simp
  next
    case False
    then have "read_chunks chunk_size unread content
        = read_chunks chunk_size (drop chunk_size unread) (content @ take chunk_size unread)"
      by (subst read_chunks.simps) simp
    also have "\<dots> = (content @ take chunk_size unread) @ drop chunk_size unread"
      using "1.IH" [OF False "1.prems"] .
    finally show ?thesis by simp
  qed
qed

lemma length_finish: "length (finish fn tasks futures i) = length futures"
  by (simp add: finish_def)

lemma length_foldl_finish: "length (foldl (finish fn tasks) futures completion) = length futures"
  by (induction completion arbitrary: futures) (simp_all add: length_finish)

lemma nth_finish:
  "i < length futures \<Longrightarrow>
   finish fn tasks futures c ! i = (if c = i then Some (fn (tasks ! i)) else futures ! i)"
  by (auto simp: finish_def)

lemma nth_foldl_finish:
  "i < length futures \<Longrightarrow>
   foldl (finish fn tasks) futures completion ! i
     = (if i \<in> set completion then Some (fn (tasks ! i)) else futures ! i)"
proof (induction completion arbitrary: futures rule: rev_induct)
  case Nil
  then show ?case by simp
next
  case (snoc c completion)
  have len: "length (foldl (finish fn tasks) futures completion) = length futures"
    by (rule length_foldl_finish)
  show ?case
    using snoc.IH [OF snoc.prems] snoc.prems len
    by (simp add: nth_finish)
qed

lemma run_workers_all:
  assumes "{..<length tasks} \<subseteq> set completion"
  shows "run_workers fn tasks completion = map (\<lambda>t. Some (fn t)) tasks"
proof (rule nth_equalityI)
  show "length (run_workers fn tasks completion) = length (map (\<lambda>t. Some (fn t)) tasks)"
    by (simp add: run_workers_def length_foldl_finish)
next
  fix i assume "i < length (run_workers fn tasks completion)"
  then have i: "i < length tasks" by (simp add: run_workers_def length_foldl_finish)
  with assms have "i \<in> set completion" by auto
  with i show "run_workers fn tasks completion ! i = map (\<lambda>t. Some (fn t)) tasks ! i"
    by (simp add: run_workers_def nth_foldl_finish)
qed

lemma wait_all_Some: "wait_all (map (\<lambda>t. Some (f t)) ts) = Some (map f ts)"
  by (induction ts) simp_all

lemma executor_map_all:
  "{..<length tasks} \<subseteq> set completion \<Longrightarrow> executor_map fn tasks completion = Some (map fn tasks)"
  by (simp add: executor_map_def run_workers_all wait_all_Some)

lemma collect_all: "collect (map (\<lambda>p. Inr (f p)) ps) acc = Inr (acc @ map f ps)"
  by (induction ps arbitrary: acc) simp_all

lemma main_runs:
  assumes dir: "isdir w (path a)"
    and files: "get_all_files w (path a) (recursive a) = Inr all_files"
    and fin: "{..<length all_files} \<subseteq> set completion"
    and res: "\<And>p. p \<in> set all_files \<Longrightarrow>
               process_file w a p (if comment_style a = 1 then ''//'' else ''#'') = Inr (fn p)"
    and out: "open_w w (output_arg a) = Inr u"
  shows "main w a completion =
           Some (Inr \<lparr>exit_code = 0,
                      output_file = Some (document w a (map fn all_files)),
                      run_stats = Some (calc_stats (map fn all_files)),
                      printed_skipped = length (skipped_results (map fn all_files)),
                      printed_errors = length (error_results (map fn all_files))\<rparr>)"
proof -
  let ?cs = "if comment_style a = 1 then ''//'' else ''#''"
  have "map (\<lambda>p. process_file w a p ?cs) all_files = map (\<lambda>p. Inr (fn p)) all_files"
    using res by simp
  then have "executor_map (\<lambda>p. process_file w a p ?cs) all_files completion
               = Some (map (\<lambda>p. Inr (fn p)) all_files)"
    using executor_map_all [OF fin, of "\<lambda>p. process_file w a p ?cs"] by simp
  then show ?thesis
    using dir files out by (simp add: main_def Let_def collect_all)
qed

text \<open>
  The decoder accepts exactly the well-formed byte strings, and returns the scalar values
  they encode.
\<close>

lemma unat_byte: "n < 256 \<Longrightarrow> unat (byte n) = n"
  by (simp add: byte_def unat_of_nat)

lemma byte_eq: "n < 256 \<Longrightarrow> (byte n = b) = (n = unat b)"
  using unat_byte word_unat_eq_iff by metis

lemma byte_le: "n < 256 \<Longrightarrow> (byte n \<le> b) = (n \<le> unat b)" "n < 256 \<Longrightarrow> (b \<le> byte n) = (unat b \<le> n)"
  "n < 256 \<Longrightarrow> (byte n < b) = (n < unat b)"
  by (simp_all add: word_le_nat_alt word_less_nat_alt unat_byte)

lemma split2: "(cp::nat) = cp div 64 * 64 + cp mod 64"
  by simp

lemma split3: "(cp::nat) = cp div 4096 * 4096 + cp div 64 mod 64 * 64 + cp mod 64"
proof -
  have "cp div 4096 = cp div 64 div 64"
    using div_mult2_eq [of cp 64 64] by simp
  then have "cp div 64 = cp div 4096 * 64 + cp div 64 mod 64"
    by simp
  then have "cp div 64 * 64 = cp div 4096 * 4096 + cp div 64 mod 64 * 64"
    by simp
  then show ?thesis
    using split2 [of cp] by simp
qed

lemma split4:
  "(cp::nat) = cp div 262144 * 262144 + cp div 4096 mod 64 * 4096 + cp div 64 mod 64 * 64
               + cp mod 64"
proof -
  have "cp div 262144 = cp div 4096 div 64"
    using div_mult2_eq [of cp 4096 64] by simp
  then have "cp div 4096 = cp div 262144 * 64 + cp div 4096 mod 64"
    by simp
  then have "cp div 4096 * 4096 = cp div 262144 * 262144 + cp div 4096 mod 64 * 4096"
    by simp
  then show ?thesis
    using split3 [of cp] by simp
qed

lemma decode_encode:
  assumes "scalar_value cp"
  shows "utf8_decode (utf8_encode cp @ bs) = map_option (\<lambda>cps. cp # cps) (utf8_decode bs)"
proof -
  consider "cp < 0x80" | "0x80 \<le> cp \<and> cp < 0x800" | "0x800 \<le> cp \<and> cp < 0x10000"
    | "0x10000 \<le> cp \<and> cp < 0x110000"
    using assms unfolding scalar_value_def by linarith
  then show ?thesis
  proof cases
    case 1
    then show ?thesis
      by (simp add: utf8_encode_def byte_le unat_byte)
  next
    case 2
    define q l where "q = cp div 64" and "l = cp mod 64"
    have d: "l < 64" "cp = q * 64 + l"
      unfolding q_def l_def by simp_all
    have b: "2 \<le> q" "q < 32"
      using 2 d by linarith+
    have e: "utf8_encode cp = [byte (0xC0 + q), byte (0x80 + l)]"
      using 2 by (simp add: utf8_encode_def q_def l_def)
    show ?thesis
      unfolding e using b d(1) d(2) [symmetric]
      by (auto simp add: byte_le byte_eq unat_byte continuation_def low6_def)
  next
    case 3
    define q m l where "q = cp div 4096" and "m = cp div 64 mod 64" and "l = cp mod 64"
    have d: "m < 64" "l < 64" "cp = q * 4096 + m * 64 + l"
      unfolding q_def m_def l_def using split3 [of cp] by simp_all
    have b: "q < 16" "q = 0 \<Longrightarrow> 32 \<le> m" "q = 13 \<Longrightarrow> m < 32"
      using 3 assms d unfolding scalar_value_def by linarith+
    have e: "utf8_encode cp = [byte (0xE0 + q), byte (0x80 + m), byte (0x80 + l)]"
      using 3 by (simp add: utf8_encode_def q_def m_def l_def)
    show ?thesis
      unfolding e using b d(1-2) d(3) [symmetric]
      by (auto simp add: byte_le byte_eq unat_byte continuation_def low6_def)
  next
    case 4
    define q m k l where "q = cp div 262144" and "m = cp div 4096 mod 64"
      and "k = cp div 64 mod 64" and "l = cp mod 64"
    have d: "m < 64" "k < 64" "l < 64" "cp = q * 262144 + m * 4096 + k * 64 + l"
      unfolding q_def m_def k_def l_def using split4 [of cp] by simp_all
    have b: "q < 5" "q = 0 \<Longrightarrow> 16 \<le> m" "q = 4 \<Longrightarrow> m < 16"
      using 4 d by linarith+
    have e: "utf8_encode cp
               = [byte (0xF0 + q), byte (0x80 + m), byte (0x80 + k), byte (0x80 + l)]"
      using 4 by (simp add: utf8_encode_def q_def m_def k_def l_def)
    show ?thesis
      unfolding e using b d(1-3) d(4) [symmetric]
      by (auto simp add: byte_le byte_eq unat_byte continuation_def low6_def)
  qed
qed


lemma byte_unat: "byte (unat b) = b"
  by (simp add: byte_def)

lemma div_mod_64:
  "l < 64 \<Longrightarrow> (a * 64 + l) div 64 = (a::nat)" "l < 64 \<Longrightarrow> (a * 64 + l) mod 64 = l"
  by simp_all

lemma encode_one:
  assumes "b0 < 0x80"
  shows "utf8_encode (unat b0) = [b0]" "scalar_value (unat b0)"
  using assms by (simp_all add: utf8_encode_def scalar_value_def word_less_nat_alt byte_unat)

lemma encode_two:
  assumes "0xC2 \<le> b0" "b0 \<le> 0xDF" "continuation b1"
  shows "utf8_encode ((unat b0 - 0xC0) * 64 + low6 b1) = [b0, b1]"
    and "scalar_value ((unat b0 - 0xC0) * 64 + low6 b1)"
proof -
  define q l where "q = unat b0 - 0xC0" and "l = unat b1 - 0x80"
  have r: "194 \<le> unat b0" "unat b0 \<le> 223" "128 \<le> unat b1" "unat b1 \<le> 191"
    using assms by (simp_all add: word_le_nat_alt continuation_def)
  then have b: "2 \<le> q" "q < 32" "l < 64" "0xC0 + q = unat b0" "0x80 + l = unat b1"
    unfolding q_def l_def by linarith+
  have dm: "(q * 64 + l) div 64 = q" "(q * 64 + l) mod 64 = l"
    using b by simp_all
  have rng: "\<not> q * 64 + l < 0x80" "q * 64 + l < 0x800"
    using b by linarith+
  show "utf8_encode ((unat b0 - 0xC0) * 64 + low6 b1) = [b0, b1]"
    unfolding low6_def q_def [symmetric] l_def [symmetric]
    using rng by (simp add: utf8_encode_def dm b byte_unat)
  show "scalar_value ((unat b0 - 0xC0) * 64 + low6 b1)"
    unfolding low6_def q_def [symmetric] l_def [symmetric]
    using rng by (simp add: scalar_value_def)
qed

lemma encode_three:
  assumes "0xE0 \<le> b0" "b0 \<le> 0xEF"
    and "(if b0 = 0xE0 then 0xA0 else 0x80) \<le> b1" "b1 \<le> (if b0 = 0xED then 0x9F else 0xBF)"
    and "continuation b2"
  shows "utf8_encode ((unat b0 - 0xE0) * 4096 + low6 b1 * 64 + low6 b2) = [b0, b1, b2]"
    and "scalar_value ((unat b0 - 0xE0) * 4096 + low6 b1 * 64 + low6 b2)"
proof -
  define q m l where "q = unat b0 - 0xE0" and "m = unat b1 - 0x80" and "l = unat b2 - 0x80"
  have r: "224 \<le> unat b0" "unat b0 \<le> 239" "128 \<le> unat b2" "unat b2 \<le> 191"
    "128 \<le> unat b1" "unat b1 \<le> 191"
    "unat b0 = 224 \<Longrightarrow> 160 \<le> unat b1" "unat b0 = 237 \<Longrightarrow> unat b1 \<le> 159"
    using assms
    by (auto simp: word_le_nat_alt continuation_def word_unat_eq_iff split: if_splits)
  then have b: "q < 16" "m < 64" "l < 64" "0xE0 + q = unat b0" "0x80 + m = unat b1"
    "0x80 + l = unat b2" "q = 0 \<Longrightarrow> 32 \<le> m" "q = 13 \<Longrightarrow> m < 32"
    unfolding q_def m_def l_def by linarith+
  let ?cp = "q * 4096 + m * 64 + l"
  have dm0: "?cp div 64 = q * 64 + m" "?cp mod 64 = l"
    using div_mod_64 [of l "q * 64 + m"] b(3) by (simp_all add: algebra_simps)
  have "?cp div 4096 = ?cp div 64 div 64"
    using div_mult2_eq [of ?cp 64 64] by simp
  then have dm: "?cp div 4096 = q" "?cp div 64 mod 64 = m" "?cp mod 64 = l"
    using dm0 b by simp_all
  have low: "q = 0 \<Longrightarrow> 0x800 \<le> ?cp"
    using b(7) by linarith
  have rng: "\<not> ?cp < 0x80" "\<not> ?cp < 0x800" "?cp < 0x10000"
    using b(1-3) low by (cases "q = 0"; linarith)+
  have sur: "?cp < 0xD800 \<or> 0xE000 \<le> ?cp"
  proof (cases "q = 13")
    case True
    with b(8) have "m < 32" by simp
    with True b(3) show ?thesis by linarith
  next
    case False
    with b(2,3) show ?thesis by linarith
  qed
  show "utf8_encode ((unat b0 - 0xE0) * 4096 + low6 b1 * 64 + low6 b2) = [b0, b1, b2]"
    unfolding low6_def q_def [symmetric] m_def [symmetric] l_def [symmetric]
    using rng by (simp add: utf8_encode_def dm b(4-6) byte_unat)
  show "scalar_value ((unat b0 - 0xE0) * 4096 + low6 b1 * 64 + low6 b2)"
    unfolding low6_def q_def [symmetric] m_def [symmetric] l_def [symmetric]
    using rng sur by (simp add: scalar_value_def)
qed


lemma encode_four:
  assumes "0xF0 \<le> b0" "b0 \<le> 0xF4"
    and "(if b0 = 0xF0 then 0x90 else 0x80) \<le> b1" "b1 \<le> (if b0 = 0xF4 then 0x8F else 0xBF)"
    and "continuation b2" "continuation b3"
  shows "utf8_encode ((unat b0 - 0xF0) * 262144 + low6 b1 * 4096 + low6 b2 * 64 + low6 b3)
           = [b0, b1, b2, b3]"
    and "scalar_value ((unat b0 - 0xF0) * 262144 + low6 b1 * 4096 + low6 b2 * 64 + low6 b3)"
proof -
  define q m k l where "q = unat b0 - 0xF0" and "m = unat b1 - 0x80"
    and "k = unat b2 - 0x80" and "l = unat b3 - 0x80"
  have r: "240 \<le> unat b0" "unat b0 \<le> 244" "128 \<le> unat b2" "unat b2 \<le> 191"
    "128 \<le> unat b3" "unat b3 \<le> 191" "128 \<le> unat b1" "unat b1 \<le> 191"
    "unat b0 = 240 \<Longrightarrow> 144 \<le> unat b1" "unat b0 = 244 \<Longrightarrow> unat b1 \<le> 143"
    using assms
    by (auto simp: word_le_nat_alt continuation_def word_unat_eq_iff split: if_splits)
  then have b: "q < 5" "m < 64" "k < 64" "l < 64" "0xF0 + q = unat b0" "0x80 + m = unat b1"
    "0x80 + k = unat b2" "0x80 + l = unat b3" "q = 0 \<Longrightarrow> 16 \<le> m" "q = 4 \<Longrightarrow> m < 16"
    unfolding q_def m_def k_def l_def by linarith+
  let ?cp = "q * 262144 + m * 4096 + k * 64 + l"
  have dm0: "?cp div 64 = (q * 64 + m) * 64 + k" "?cp mod 64 = l"
    using div_mod_64 [of l "(q * 64 + m) * 64 + k"] b(4) by (simp_all add: algebra_simps)
  have dm1: "?cp div 64 div 64 = q * 64 + m" "?cp div 64 mod 64 = k"
    using div_mod_64 [of k "q * 64 + m"] b(3) by (simp_all add: dm0)
  have dm2: "?cp div 64 div 64 div 64 = q" "?cp div 64 div 64 mod 64 = m"
    using div_mod_64 [of m q] b(2) by (simp_all add: dm1)
  have "?cp div 4096 = ?cp div 64 div 64"
    using div_mult2_eq [of ?cp 64 64] by simp
  moreover have "?cp div 262144 = ?cp div 4096 div 64"
    using div_mult2_eq [of ?cp 4096 64] by simp
  ultimately have dm: "?cp div 262144 = q" "?cp div 4096 mod 64 = m" "?cp div 64 mod 64 = k"
    "?cp mod 64 = l"
    using dm0 dm1 dm2 by simp_all
  have low: "q = 0 \<Longrightarrow> 0x10000 \<le> ?cp"
    using b(9) by linarith
  have rng: "\<not> ?cp < 0x80" "\<not> ?cp < 0x800" "\<not> ?cp < 0x10000"
    using b(1-4) low by (cases "q = 0"; linarith)+
  have top: "?cp < 0x110000"
  proof (cases "q = 4")
    case True
    with b(10) have "m < 16" by simp
    with True b(3,4) show ?thesis by linarith
  next
    case False
    with b(1-4) show ?thesis by linarith
  qed
  show "utf8_encode ((unat b0 - 0xF0) * 262144 + low6 b1 * 4096 + low6 b2 * 64 + low6 b3)
           = [b0, b1, b2, b3]"
    unfolding low6_def q_def [symmetric] m_def [symmetric] k_def [symmetric] l_def [symmetric]
    using rng by (simp add: utf8_encode_def dm b(5-8) byte_unat)
  show "scalar_value ((unat b0 - 0xF0) * 262144 + low6 b1 * 4096 + low6 b2 * 64 + low6 b3)"
    unfolding low6_def q_def [symmetric] m_def [symmetric] k_def [symmetric] l_def [symmetric]
    using rng top by (simp add: scalar_value_def)
qed

lemma decode_step:
  assumes "utf8_decode (b0 # bs) = Some cps"
  shows "\<exists>cp rest tl. scalar_value cp \<and> b0 # bs = utf8_encode cp @ rest \<and> cps = cp # tl
           \<and> utf8_decode rest = Some tl \<and> length rest < length (b0 # bs)"
proof -
  consider (one) "b0 < 0x80"
    | (two) "\<not> b0 < 0x80" "0xC2 \<le> b0 \<and> b0 \<le> 0xDF"
    | (three) "\<not> b0 < 0x80" "\<not> (0xC2 \<le> b0 \<and> b0 \<le> 0xDF)" "0xE0 \<le> b0 \<and> b0 \<le> 0xEF"
    | (four) "\<not> b0 < 0x80" "\<not> (0xC2 \<le> b0 \<and> b0 \<le> 0xDF)" "\<not> (0xE0 \<le> b0 \<and> b0 \<le> 0xEF)"
        "0xF0 \<le> b0 \<and> b0 \<le> 0xF4"
    | (bad) "\<not> b0 < 0x80" "\<not> (0xC2 \<le> b0 \<and> b0 \<le> 0xDF)" "\<not> (0xE0 \<le> b0 \<and> b0 \<le> 0xEF)"
        "\<not> (0xF0 \<le> b0 \<and> b0 \<le> 0xF4)"
    by blast
  then show ?thesis
  proof cases
    case one
    with assms obtain tl where "utf8_decode bs = Some tl" "cps = unat b0 # tl"
      by auto
    with encode_one [OF one] show ?thesis by auto
  next
    case two
    with assms obtain b1 rest tl where
      "bs = b1 # rest" "continuation b1" "utf8_decode rest = Some tl"
      "cps = ((unat b0 - 0xC0) * 64 + low6 b1) # tl"
      by (auto split: list.splits if_splits)
    with encode_two [of b0 b1] two show ?thesis by auto
  next
    case three
    with assms obtain b1 b2 rest tl where
      "bs = b1 # b2 # rest" "(if b0 = 0xE0 then 0xA0 else 0x80) \<le> b1"
      "b1 \<le> (if b0 = 0xED then 0x9F else 0xBF)" "continuation b2"
      "utf8_decode rest = Some tl"
      "cps = ((unat b0 - 0xE0) * 4096 + low6 b1 * 64 + low6 b2) # tl"
      by (simp split: list.splits if_splits; blast)
    with encode_three [of b0 b1 b2] three show ?thesis by auto
  next
    case four
    with assms obtain b1 b2 b3 rest tl where
      "bs = b1 # b2 # b3 # rest" "(if b0 = 0xF0 then 0x90 else 0x80) \<le> b1"
      "b1 \<le> (if b0 = 0xF4 then 0x8F else 0xBF)" "continuation b2" "continuation b3"
      "utf8_decode rest = Some tl"
      "cps = ((unat b0 - 0xF0) * 262144 + low6 b1 * 4096 + low6 b2 * 64 + low6 b3) # tl"
      by (simp split: list.splits if_splits; blast)
    with encode_four [of b0 b1 b2 b3] four show ?thesis by auto
  next
    case bad
    with assms show ?thesis by simp
  qed
qed


lemma decode_encode_all:
  "list_all scalar_value cps \<Longrightarrow> utf8_decode (concat (map utf8_encode cps)) = Some cps"
  by (induction cps) (simp_all add: decode_encode)

lemma decode_sound:
  "utf8_decode bs = Some cps \<Longrightarrow> list_all scalar_value cps \<and> bs = concat (map utf8_encode cps)"
proof (induction bs arbitrary: cps rule: length_induct)
  case (1 bs)
  show ?case
  proof (cases bs)
    case Nil
    with "1.prems" show ?thesis by simp
  next
    case (Cons b0 bs')
    with "1.prems" obtain cp rest tl where
      st: "scalar_value cp" "b0 # bs' = utf8_encode cp @ rest" "cps = cp # tl"
          "utf8_decode rest = Some tl" "length rest < length (b0 # bs')"
      using decode_step [of b0 bs' cps] by blast
    from st(5) Cons have "length rest < length bs" by simp
    with "1.IH" st(4) have "list_all scalar_value tl \<and> rest = concat (map utf8_encode tl)"
      by blast
    with st(1-3) Cons show ?thesis by simp
  qed
qed

lemma utf8_decode_strict:
  "(utf8_decode bs = Some cps) = (list_all scalar_value cps \<and> bs = concat (map utf8_encode cps))"
  using decode_sound decode_encode_all by blast

lemma utf8_decode_None: "(utf8_decode bs = None) = (\<not> well_formed_utf8 bs)"
proof -
  have "(utf8_decode bs \<noteq> None) = well_formed_utf8 bs"
    unfolding well_formed_utf8_def using utf8_decode_strict [of bs] by auto
  then show ?thesis by blast
qed

lemma small_file_passes:
  "should_process_file (directory [(''a.txt'', ascii ''hello'')]) ''root/a.txt''
     (plain_args\<lparr>max_size := None\<rparr>) = Inr True"
  by code_simp

subsection \<open>The claims\<close>


text \<open>
  C10. A maximum size of 0 switches the size rule off: with \<open>max_size = 0\<close> the filter
  answers what it answers with no maximum size at all, whatever the size of the file is
  and whether or not the size can be read.
\<close>

theorem max_size_zero_disables_limit:
  "should_process_file w file_path (a\<lparr>max_size := Some 0\<rparr>)
     = should_process_file w file_path (a\<lparr>max_size := None\<rparr>)
   \<and> should_process_file (w\<lparr>getsize := g\<rparr>) file_path (a\<lparr>max_size := Some 0\<rparr>)
     = should_process_file w file_path (a\<lparr>max_size := Some 0\<rparr>)"
  by (simp add: should_process_file_def extension_rules_def)

theorem max_size_zero_disables_limit_witness:
  "should_process_file (directory [(''a.txt'', ascii ''hello'')]) ''root/a.txt''
      (plain_args\<lparr>max_size := Some 0\<rparr>) = Inr True
   \<and> should_process_file
        (directory [(''a.txt'', ascii ''hello'')]\<lparr>getsize := \<lambda>p. Inl (Exception ''gone'')\<rparr>)
        ''root/a.txt'' (plain_args\<lparr>max_size := Some 0\<rparr>) = Inr True"
  using max_size_zero_disables_limit
          [of "directory [(''a.txt'', ascii ''hello'')]" "''root/a.txt''" plain_args
              "\<lambda>p. Inl (Exception ''gone'')"] small_file_passes
  by simp

text \<open>
  C7. When the file can be opened and read, \<open>is_binary\<close> is true exactly when the sample,
  the first 8192 bytes at most, holds a null byte or fails to decode, that is, is not
  well-formed UTF-8; when the file cannot be opened or read, \<open>is_binary\<close> is true.
\<close>

theorem is_binary_sample:
  "(open_rb w file_path = Inr bs \<longrightarrow>
      is_binary w file_path 8192
        = (0 \<in> set (take 8192 bs) \<or> utf8_decode (take 8192 bs) = None)
      \<and> is_binary w file_path 8192
        = (0 \<in> set (take 8192 bs) \<or> \<not> well_formed_utf8 (take 8192 bs)))
   \<and> (open_rb w file_path = Inl e \<longrightarrow> is_binary w file_path 8192)"
  by (auto simp: is_binary_def Let_def utf8_decode_None [symmetric] split: option.splits)

lemma scenario_samples:
  "open_rb (directory scenario_files) ''root/a.txt'' = Inr (ascii ''hello'')"
  "open_rb (directory scenario_files) ''root/b.bin'' = Inr [0x00, 0x01, 0x02]"
  "open_rb (directory scenario_files) ''root/missing''
     = Inl (Exception ''No such file or directory'')"
  by code_simp+

lemma decode_hello:
  "utf8_decode (take 8192 (ascii ''hello'')) \<noteq> None"
  "0 \<notin> set (take 8192 (ascii ''hello''))"
  by code_simp+

theorem is_binary_sample_witness:
  "\<not> is_binary (directory scenario_files) ''root/a.txt'' 8192
   \<and> is_binary (directory scenario_files) ''root/b.bin'' 8192
   \<and> is_binary (directory scenario_files) ''root/missing'' 8192"
  using is_binary_sample [of "directory scenario_files" "''root/a.txt''" "ascii ''hello''"]
        is_binary_sample [of "directory scenario_files" "''root/b.bin''" "[0x00, 0x01, 0x02]"]
        is_binary_sample [of "directory scenario_files" "''root/missing''" _
                             "Exception ''No such file or directory''"]
        scenario_samples decode_hello
  by simp

lemma process_file_path: "process_file w a p cs = Inr r \<Longrightarrow> file_path_of r = p"
  by (auto simp: process_file_def Let_def split: sum.splits if_splits prod.splits option.splits)






lemma scenario_found:
  "isdir (directory scenario_files) (path scenario_args)"
  "get_all_files (directory scenario_files) (path scenario_args) (recursive scenario_args)
     = Inr [''root/a.txt'', ''root/b.bin'', ''root/c.log'']"
  "open_w (directory scenario_files) (output_arg scenario_args) = Inr ()"
  "(if comment_style scenario_args = 1 then ''//'' else ''#'') = ''#''"
  by code_simp+

lemma scenario_processed:
  "process_file (directory scenario_files) scenario_args ''root/a.txt'' ''#''
     = Inr (scenario_result ''root/a.txt'')"
  "process_file (directory scenario_files) scenario_args ''root/b.bin'' ''#''
     = Inr (scenario_result ''root/b.bin'')"
  "process_file (directory scenario_files) scenario_args ''root/c.log'' ''#''
     = Inr (scenario_result ''root/c.log'')"
  by code_simp+



text \<open>
  The successful results are the successes, as tuples.
\<close>

lemma successful_successes:
  "successful rs = map (\<lambda>(p, md, h, c, f). Success p md h c f) (successes rs)"
proof (induction rs)
  case Nil
  show ?case by (simp add: successful_def)
next
  case (Cons r rs)
  then show ?case by (cases r) (simp_all add: successful_def)
qed

lemma main_exit_0:
  assumes "main w a completion = Some (Inr r)" and "exit_code r = 0"
  shows "\<exists>results. r = \<lparr>exit_code = 0,
                          output_file = Some (document w a results),
                          run_stats = Some (calc_stats results),
                          printed_skipped = length (skipped_results results),
                          printed_errors = length (error_results results)\<rparr>"
  using assms unfolding main_def Let_def
  by (auto split: if_splits sum.splits option.splits)

text \<open>
  What the iterator of the executor yields is the value of the worker on each task, in the
  order of the tasks; so the results that a run with the exit code 0 collects are the
  results of \<open>process_file\<close> on the discovered files, in their order.
\<close>

lemma wait_all_Some_map: "wait_all fs = Some outs \<Longrightarrow> fs = map Some outs"
proof (induction fs arbitrary: outs)
  case Nil
  then show ?case by simp
next
  case (Cons f fs)
  then show ?case by (cases f) auto
qed

lemma executor_map_results:
  assumes "executor_map fn tasks completion = Some outs"
  shows "outs = map fn tasks"
proof (rule nth_equalityI)
  have fs: "run_workers fn tasks completion = map Some outs"
    using assms by (simp add: executor_map_def wait_all_Some_map)
  have "length (run_workers fn tasks completion) = length tasks"
    by (simp add: run_workers_def length_foldl_finish)
  with fs have len0: "length outs = length tasks" by simp
  then show "length outs = length (map fn tasks)" by simp
  fix i assume "i < length outs"
  with len0 have i: "i < length tasks" by simp
  then have "run_workers fn tasks completion ! i
               = (if i \<in> set completion then Some (fn (tasks ! i)) else None)"
    by (simp add: run_workers_def nth_foldl_finish)
  moreover from fs i len0 have "run_workers fn tasks completion ! i = Some (outs ! i)"
    by simp
  ultimately have "outs ! i = fn (tasks ! i)"
    by (simp split: if_splits)
  with i show "outs ! i = map fn tasks ! i" by simp
qed

lemma collect_results:
  "collect outs acc = Inr results \<Longrightarrow> map Inr results = map Inr acc @ outs"
  by (induction outs acc rule: collect.induct) simp_all

lemma main_exit_0_results:
  assumes "main w a completion = Some (Inr r)" and "exit_code r = 0"
  shows "\<exists>all_files results.
           get_all_files w (path a) (recursive a) = Inr all_files
           \<and> map (\<lambda>p. process_file w a p (if comment_style a = 1 then ''//'' else ''#'')) all_files
               = map Inr results
           \<and> r = \<lparr>exit_code = 0,
                   output_file = Some (document w a results),
                   run_stats = Some (calc_stats results),
                   printed_skipped = length (skipped_results results),
                   printed_errors = length (error_results results)\<rparr>"
proof -
  let ?cs = "if comment_style a = 1 then ''//'' else ''#''"
  from assms have dir: "isdir w (path a)"
    by (auto simp: main_def split: if_splits)
  from assms dir obtain all_files where af: "get_all_files w (path a) (recursive a) = Inr all_files"
    by (cases "get_all_files w (path a) (recursive a)") (auto simp: main_def Let_def)
  from assms dir af obtain outs where
    ex: "executor_map (\<lambda>p. process_file w a p ?cs) all_files completion = Some outs"
    by (cases "executor_map (\<lambda>p. process_file w a p ?cs) all_files completion")
       (auto simp: main_def Let_def)
  from assms dir af ex obtain results where co: "collect outs [] = Inr results"
    by (cases "collect outs []") (auto simp: main_def Let_def)
  from assms dir af ex co have
    r: "r = \<lparr>exit_code = 0,
             output_file = Some (document w a results),
             run_stats = Some (calc_stats results),
             printed_skipped = length (skipped_results results),
             printed_errors = length (error_results results)\<rparr>"
    by (cases "open_w w (output_arg a)") (auto simp: main_def Let_def)
  have m: "map (\<lambda>p. process_file w a p ?cs) all_files = map Inr results"
    using collect_results [OF co] executor_map_results [OF ex] by simp
  from af m r show ?thesis by blast
qed

lemma successes_paths:
  assumes "map g ps = map Inr rs"
    and "\<And>p r. g p = Inr r \<Longrightarrow> file_path_of r = p"
  shows "map (\<lambda>(p, md, h, c, f). p) (successes rs)
           = filter (\<lambda>p. map_sum id status (g p) = Inr ''success'') ps"
  using assms(1)
proof (induction ps arbitrary: rs)
  case Nil
  then show ?case by simp
next
  case (Cons p ps)
  then obtain r rs' where rs: "rs = r # rs'" "g p = Inr r" "map g ps = map Inr rs'"
    by (cases rs) auto
  with assms(2) have "file_path_of r = p" by blast
  with Cons.IH [OF rs(3)] rs show ?case
    by (cases r) simp_all
qed

text \<open>
  C4. In a run that ends with the exit code 0: let \<open>results\<close> be what \<open>process_file\<close>
  returns for the discovered files, in their order. The files of the successes among them
  are the discovered files on which \<open>process_file\<close> returns a success, in that order. The
  document is the header, then for each of these successes its header, its content and its
  footer, then the footer made from the statistics. The processed count is the number of
  these successes and the total size is the sum of the \<open>size\<close> fields of their metadata,
  and of nothing else; the size printed in the footer is that sum made readable.
\<close>

theorem total_size_is_sum_over_body:
  assumes "main w a completion = Some (Inr r)" and "exit_code r = 0"
  shows "\<exists>all_files results st.
           get_all_files w (path a) (recursive a) = Inr all_files
           \<and> map (\<lambda>p. process_file w a p (if comment_style a = 1 then ''//'' else ''#''))
                 all_files
               = map Inr results
           \<and> map (\<lambda>(p, md, h, c, f). p) (successes results)
               = filter (\<lambda>p. map_sum id status
                                (process_file w a p (if comment_style a = 1 then ''//'' else ''#''))
                              = Inr ''success'')
                        all_files
           \<and> output_file r =
               Some (str (write_output_header w a)
                     @ concat (map (\<lambda>(p, md, h, c, f). str h @ c @ str f) (successes results))
                     @ str (write_output_footer a st))
           \<and> run_stats r = Some st
           \<and> processed st = length (successes results)
           \<and> total_size st = sum_list (map (\<lambda>(p, md, h, c, f). size_md md) (successes results))
           \<and> total_size_str st = get_human_readable_size (total_size st)"
proof -
  let ?cs = "if comment_style a = 1 then ''//'' else ''#''"
  obtain all_files results where
    af: "get_all_files w (path a) (recursive a) = Inr all_files"
    and m: "map (\<lambda>p. process_file w a p ?cs) all_files = map Inr results"
    and r: "r = \<lparr>exit_code = 0,
                   output_file = Some (document w a results),
                   run_stats = Some (calc_stats results),
                   printed_skipped = length (skipped_results results),
                   printed_errors = length (error_results results)\<rparr>"
    using main_exit_0_results [OF assms] by blast
  have paths: "map (\<lambda>(p, md, h, c, f). p) (successes results)
                 = filter (\<lambda>p. map_sum id status (process_file w a p ?cs) = Inr ''success'')
                          all_files"
    by (rule successes_paths [OF m]) (erule process_file_path)
  have wr: "map written (successful results)
              = map (\<lambda>(p, md, h, c, f). str h @ c @ str f) (successes results)"
    by (simp add: successful_successes comp_def case_prod_unfold)
  have ms: "map metadata_size (successful results)
              = map (\<lambda>(p, md, h, c, f). size_md md) (successes results)"
    by (simp add: successful_successes comp_def case_prod_unfold)
  have ln: "length (successful results) = length (successes results)"
    by (simp add: successful_successes)
  have "output_file r =
               Some (str (write_output_header w a)
                     @ concat (map (\<lambda>(p, md, h, c, f). str h @ c @ str f) (successes results))
                     @ str (write_output_footer a (calc_stats results)))
        \<and> run_stats r = Some (calc_stats results)
        \<and> processed (calc_stats results) = length (successes results)
        \<and> total_size (calc_stats results)
            = sum_list (map (\<lambda>(p, md, h, c, f). size_md md) (successes results))
        \<and> total_size_str (calc_stats results)
            = get_human_readable_size (total_size (calc_stats results))"
    using wr ms ln by (simp add: r document_def body_def calc_stats_def Let_def)
  with af m paths show ?thesis by blast
qed

lemma scenario_runs:
  "main (directory scenario_files) scenario_args [0, 1, 2]
     = Some (Inr \<lparr>exit_code = 0,
                   output_file = Some (document (directory scenario_files) scenario_args
                                         (map scenario_result
                                            [''root/a.txt'', ''root/b.bin'', ''root/c.log''])),
                   run_stats = Some (calc_stats (map scenario_result
                                            [''root/a.txt'', ''root/b.bin'', ''root/c.log''])),
                   printed_skipped = length (skipped_results (map scenario_result
                                            [''root/a.txt'', ''root/b.bin'', ''root/c.log''])),
                   printed_errors = length (error_results (map scenario_result
                                            [''root/a.txt'', ''root/b.bin'', ''root/c.log'']))\<rparr>)"
proof (rule main_runs [where u = "()"])
  show "{..<length [''root/a.txt'', ''root/b.bin'', ''root/c.log'']} \<subseteq> set [0, 1, 2::nat]"
    by (auto simp: lessThan_def less_Suc_eq numeral_3_eq_3)
  show "\<And>p. p \<in> set [''root/a.txt'', ''root/b.bin'', ''root/c.log''] \<Longrightarrow>
      process_file (directory scenario_files) scenario_args p
        (if comment_style scenario_args = 1 then ''//'' else ''#'') = Inr (scenario_result p)"
    using scenario_processed scenario_found(4) by auto
qed (rule scenario_found)+

lemma scenario_successes:
  "map (\<lambda>(p, md, h, c, f). (p, size_md md, c))
       (successes (map scenario_result [''root/a.txt'', ''root/b.bin'', ''root/c.log'']))
     = [(''root/a.txt'', 5, str ''hello''), (''root/c.log'', 5, str ''world'')]"
  by (simp add: scenario_result_def scenario_metadata_def)

theorem total_size_is_sum_over_body_witness:
  "\<exists>r results st.
       main (directory scenario_files) scenario_args [0, 1, 2] = Some (Inr r)
       \<and> exit_code r = 0
       \<and> map (\<lambda>(p, md, h, c, f). (p, size_md md, c)) (successes results)
           = [(''root/a.txt'', 5, str ''hello''), (''root/c.log'', 5, str ''world'')]
       \<and> output_file r =
           Some (str (write_output_header (directory scenario_files) scenario_args)
                 @ concat (map (\<lambda>(p, md, h, c, f). str h @ c @ str f) (successes results))
                 @ str (write_output_footer scenario_args st))
       \<and> run_stats r = Some st
       \<and> processed st = 2
       \<and> total_size st = 10"
proof -
  obtain r where r:
    "main (directory scenario_files) scenario_args [0, 1, 2] = Some (Inr r)" "exit_code r = 0"
    using scenario_runs by simp
  from total_size_is_sum_over_body [OF r] obtain all_files results st where
    af: "get_all_files (directory scenario_files) (path scenario_args) (recursive scenario_args)
           = Inr all_files"
    and m: "map (\<lambda>p. process_file (directory scenario_files) scenario_args p
                        (if comment_style scenario_args = 1 then ''//'' else ''#''))
                all_files
              = map Inr results"
    and out: "output_file r =
           Some (str (write_output_header (directory scenario_files) scenario_args)
                 @ concat (map (\<lambda>(p, md, h, c, f). str h @ c @ str f) (successes results))
                 @ str (write_output_footer scenario_args st))"
    and st: "run_stats r = Some st" "processed st = length (successes results)"
      "total_size st = sum_list (map (\<lambda>(p, md, h, c, f). size_md md) (successes results))"
    by blast
  from af scenario_found(2) have "all_files = [''root/a.txt'', ''root/b.bin'', ''root/c.log'']"
    by simp
  with m scenario_processed scenario_found(4)
  have "map Inr results
          = map Inr (map scenario_result [''root/a.txt'', ''root/b.bin'', ''root/c.log''])"
    by auto
  then have res: "results = map scenario_result [''root/a.txt'', ''root/b.bin'', ''root/c.log'']"
    by (simp only: inj_map_eq_map [OF inj_Inr])
  have sc: "map (\<lambda>(p, md, h, c, f). (p, size_md md, c)) (successes results)
           = [(''root/a.txt'', 5, str ''hello''), (''root/c.log'', 5, str ''world'')]"
    unfolding res by (rule scenario_successes)
  have n: "processed st = 2" "total_size st = 10"
    using st(2,3) unfolding res by (simp_all add: scenario_result_def scenario_metadata_def)
  have "main (directory scenario_files) scenario_args [0, 1, 2] = Some (Inr r)
       \<and> exit_code r = 0
       \<and> map (\<lambda>(p, md, h, c, f). (p, size_md md, c)) (successes results)
           = [(''root/a.txt'', 5, str ''hello''), (''root/c.log'', 5, str ''world'')]
       \<and> output_file r =
           Some (str (write_output_header (directory scenario_files) scenario_args)
                 @ concat (map (\<lambda>(p, md, h, c, f). str h @ c @ str f) (successes results))
                 @ str (write_output_footer scenario_args st))
       \<and> run_stats r = Some st
       \<and> processed st = 2
       \<and> total_size st = 10"
    by (intro conjI) (fact r sc out st(1) n)+
  then show ?thesis by (intro exI)
qed

text \<open>
  Lower case leaves a dot alone and turns nothing else into a dot, so stripping the leading
  dots and lowering commute.
\<close>

lemma lower_char_dot: "(lower_char c = CHR ''.'') = (c = CHR ''.'')"
proof (cases "(65 \<le> (of_char c :: nat) \<and> (of_char c :: nat) \<le> 90)
              \<or> (192 \<le> (of_char c :: nat) \<and> (of_char c :: nat) \<le> 214)
              \<or> (216 \<le> (of_char c :: nat) \<and> (of_char c :: nat) \<le> 222)")
  case True
  then have "lower_char c = char_of ((of_char c :: nat) + 32)"
    by (simp add: lower_char_def)
  moreover from True have "(of_char c :: nat) + 32 < 256"
    by linarith
  then have "(of_char (char_of ((of_char c :: nat) + 32)) :: nat) = of_char c + 32"
    by simp
  ultimately have "(of_char (lower_char c) :: nat) = of_char c + 32" by simp
  with True have "of_char (lower_char c) \<noteq> (46 :: nat)" by linarith
  then have "lower_char c \<noteq> CHR ''.''" by auto
  moreover from True have "of_char c \<noteq> (46 :: nat)" by linarith
  then have "c \<noteq> CHR ''.''" by auto
  ultimately show ?thesis by simp
next
  case False
  then show ?thesis by (auto simp: lower_char_def Let_def)
qed

lemma lower_dropWhile_dot:
  "lower (dropWhile (\<lambda>c. c = CHR ''.'') t) = dropWhile (\<lambda>c. c = CHR ''.'') (lower t)"
  by (induction t) (simp_all add: lower_def lower_char_dot)

lemma any_endswith_tokens:
  "any_endswith p (dotted_exts tokens) = list_ex (token_matches p) (split CHR '','' tokens)"
  by (simp add: any_endswith_def dotted_exts_def list_ex_iff endswith_suffix token_matches_def
        lstrip_dot_def)

lemma token_matches_dots: "token_matches p (CHR ''.'' # t) = token_matches p t"
  by (simp add: token_matches_def)

lemma token_matches_lower:
  "lower p = lower p' \<Longrightarrow> lower t = lower t' \<Longrightarrow> token_matches p t = token_matches p' t'"
  by (simp add: token_matches_def lower_def lower_dropWhile_dot [unfolded lower_def])

lemma should_process_file_rules:
  "should_process_file w p a =
     first_failing [rule_regular_readable w p, rule_not_output w p a, rule_max_size w p a,
                    rule_include p a, rule_exclude p a]"
proof (cases "isfile w p \<and> access_R_OK w p \<and> abspath w p \<noteq> abspath w (output_arg a)")
  case False
  then show ?thesis
    by (auto simp: should_process_file_def rule_regular_readable_def rule_not_output_def)
next
  case True
  have ext: "Inr (extension_rules p a) = first_failing [rule_include p a, rule_exclude p a]"
    by (cases "include_arg a"; cases "exclude_arg a")
       (auto simp: extension_rules_def rule_include_def rule_exclude_def any_endswith_tokens)
  show ?thesis
  proof (cases "max_size a")
    case None
    with True ext show ?thesis
      by (simp add: should_process_file_def rule_regular_readable_def rule_not_output_def
            rule_max_size_def)
  next
    case (Some kb)
    with True ext show ?thesis
      by (cases "getsize w p")
         (auto simp: should_process_file_def rule_regular_readable_def rule_not_output_def
            rule_max_size_def)
  qed
qed

text \<open>
  C5. \<open>should_process_file\<close> is the evaluation, in this order and stopping at the first
  rule that fails or raises, of: (1) the path is a regular file that can be read, (2) its
  absolute form differs from that of the output path, (3) the maximum size, (4) the
  included extensions, (5) the excluded extensions. The extension test of the code is the
  suffix test on the tokens: a token matches when the token with its leading dots replaced
  by one dot is a suffix of the path, both in lower case; a leading dot of a token changes
  nothing, and neither does the case of the path or of the token.
\<close>

theorem filter_rules_in_order:
  "should_process_file w p a =
     first_failing [rule_regular_readable w p, rule_not_output w p a, rule_max_size w p a,
                    rule_include p a, rule_exclude p a]
   \<and> any_endswith p (dotted_exts tokens) = list_ex (token_matches p) (split CHR '','' tokens)
   \<and> token_matches p (CHR ''.'' # t) = token_matches p t
   \<and> (lower p = lower p' \<and> lower t = lower t' \<longrightarrow> token_matches p t = token_matches p' t')"
  using should_process_file_rules any_endswith_tokens token_matches_dots token_matches_lower
  by blast


lemma rules_on_missing_file:
  "first_failing
     [rule_regular_readable (directory scenario_files\<lparr>getsize := \<lambda>p. Inl (Exception ''gone'')\<rparr>)
        ''root/missing.txt'',
      rule_not_output (directory scenario_files\<lparr>getsize := \<lambda>p. Inl (Exception ''gone'')\<rparr>)
        ''root/missing.txt'' (plain_args\<lparr>max_size := Some 1\<rparr>),
      rule_max_size (directory scenario_files\<lparr>getsize := \<lambda>p. Inl (Exception ''gone'')\<rparr>)
        ''root/missing.txt'' (plain_args\<lparr>max_size := Some 1\<rparr>),
      rule_include ''root/missing.txt'' (plain_args\<lparr>max_size := Some 1\<rparr>),
      rule_exclude ''root/missing.txt'' (plain_args\<lparr>max_size := Some 1\<rparr>)] = Inr False"
  "rule_max_size (directory scenario_files\<lparr>getsize := \<lambda>p. Inl (Exception ''gone'')\<rparr>)
        ''root/missing.txt'' (plain_args\<lparr>max_size := Some 1\<rparr>) = Inl (Exception ''gone'')"
  by code_simp+

lemma tokens_match_upper_case:
  "list_ex (token_matches ''root/Foo.BIN'') (split CHR '','' ''txt,..bin'')"
  "lower ''root/Foo.BIN'' = lower ''ROOT/foo.bin''"
  by code_simp+

lemma rules_on_accented_name:
  "first_failing
     [rule_regular_readable (directory [(''X.'' @ [CHR 0xC9], ascii ''hello'')])
        (''root/X.'' @ [CHR 0xC9]),
      rule_not_output (directory [(''X.'' @ [CHR 0xC9], ascii ''hello'')])
        (''root/X.'' @ [CHR 0xC9]) (plain_args\<lparr>exclude_arg := Some [CHR 0xE9]\<rparr>),
      rule_max_size (directory [(''X.'' @ [CHR 0xC9], ascii ''hello'')])
        (''root/X.'' @ [CHR 0xC9]) (plain_args\<lparr>exclude_arg := Some [CHR 0xE9]\<rparr>),
      rule_include (''root/X.'' @ [CHR 0xC9]) (plain_args\<lparr>exclude_arg := Some [CHR 0xE9]\<rparr>),
      rule_exclude (''root/X.'' @ [CHR 0xC9]) (plain_args\<lparr>exclude_arg := Some [CHR 0xE9]\<rparr>)]
     = Inr False"
  by code_simp

theorem filter_rules_in_order_witness:
  "should_process_file (directory scenario_files\<lparr>getsize := \<lambda>p. Inl (Exception ''gone'')\<rparr>)
     ''root/missing.txt'' (plain_args\<lparr>max_size := Some 1\<rparr>) = Inr False
   \<and> any_endswith ''root/Foo.BIN'' (dotted_exts ''txt,..bin'')
   \<and> token_matches ''root/Foo.BIN'' ''.bin'' = token_matches ''ROOT/foo.bin'' ''bin''
   \<and> should_process_file (directory [(''X.'' @ [CHR 0xC9], ascii ''hello'')])
        (''root/X.'' @ [CHR 0xC9]) (plain_args\<lparr>exclude_arg := Some [CHR 0xE9]\<rparr>) = Inr False"
  using filter_rules_in_order
          [of "directory scenario_files\<lparr>getsize := \<lambda>p. Inl (Exception ''gone'')\<rparr>"
              "''root/missing.txt''" "plain_args\<lparr>max_size := Some 1\<rparr>"]
        filter_rules_in_order
          [of _ "''root/Foo.BIN''" _ "''txt,..bin''" "''bin''" "''ROOT/foo.bin''" "''bin''"]
        filter_rules_in_order
          [of "directory [(''X.'' @ [CHR 0xC9], ascii ''hello'')]" "''root/X.'' @ [CHR 0xC9]"
              "plain_args\<lparr>exclude_arg := Some [CHR 0xE9]\<rparr>"]
        rules_on_missing_file(1) tokens_match_upper_case rules_on_accented_name
  by simp

text \<open>
  The filter and the binary check never call \<^verbatim>\<open>os.stat\<close>, and whether
  \<open>build_file_header\<close> raises does not depend on the metadata, so the status of the
  result does not depend on what \<^verbatim>\<open>os.stat\<close> does.
\<close>

lemma stat_unused_by_filter:
  "should_process_file (w\<lparr>stat := s\<rparr>) p a = should_process_file w p a"
  "is_binary (w\<lparr>stat := s\<rparr>) p n = is_binary w p n"
  by (simp_all add: should_process_file_def is_binary_def)

lemma header_raises_without_metadata:
  "map_sum id (\<lambda>hf. ()) (build_file_header (w\<lparr>stat := s\<rparr>) p a md cs)
     = map_sum id (\<lambda>hf. ()) (build_file_header w p a md' cs)"
  by (simp add: build_file_header_def split: sum.splits)

lemma status_without_stat:
  "map_sum id status (process_file (w\<lparr>stat := s\<rparr>) a p cs)
     = map_sum id status (process_file w a p cs)"
proof -
  let ?md = "get_file_metadata (w\<lparr>stat := s\<rparr>) p" and ?md' = "get_file_metadata w p"
  have h: "map_sum id (\<lambda>hf. ()) (build_file_header (w\<lparr>stat := s\<rparr>) p a ?md cs)
             = map_sum id (\<lambda>hf. ()) (build_file_header w p a ?md' cs)"
    by (rule header_raises_without_metadata)
  show ?thesis
  proof (cases "build_file_header w p a ?md' cs")
    case (Inl e)
    with h have "build_file_header (w\<lparr>stat := s\<rparr>) p a ?md cs = Inl e"
      by (cases "build_file_header (w\<lparr>stat := s\<rparr>) p a ?md cs") simp_all
    with Inl show ?thesis
      by (simp add: process_file_def stat_unused_by_filter Let_def split: sum.splits)
  next
    case (Inr hf)
    with h obtain hf' where "build_file_header (w\<lparr>stat := s\<rparr>) p a ?md cs = Inr hf'"
      by (cases "build_file_header (w\<lparr>stat := s\<rparr>) p a ?md cs") simp_all
    with Inr show ?thesis
      by (simp add: process_file_def stat_unused_by_filter Let_def
               split: sum.splits prod.splits option.splits)
  qed
qed

lemma metadata_after_stat_failure:
  "stat w p = Inl e \<Longrightarrow> get_file_metadata w p = metadata_unknown e"
  by (simp add: get_file_metadata_def)

lemma success_in_statistics:
  "processed (calc_stats (rs @ Success p md h c f # rs')) = processed (calc_stats (rs @ rs')) + 1"
  "total_size (calc_stats (rs @ Success p md h c f # rs'))
     = total_size (calc_stats (rs @ rs')) + size_md md"
  "body (rs @ Success p md h c f # rs') = body rs @ (str h @ c @ str f) @ body rs'"
  by (simp_all add: calc_stats_def Let_def successful_def body_def)

text \<open>
  C9. For a file that passes the filter and the binary check and whose \<^verbatim>\<open>os.stat\<close>
  fails: the metadata reader returns the size 0 and \<^verbatim>\<open>"Unknown"\<close> for the size
  text and both dates; the status of the result is what it would be with any other outcome
  of \<^verbatim>\<open>os.stat\<close>, so the failure produces no error result; when the relative path
  and the content can be read and decoded, the result is a success with that metadata and
  the content of the file, it adds one to the processed count and nothing to the total
  size, and its content is in the body.
\<close>

theorem stat_failure_is_not_an_error:
  assumes "should_process_file w p a = Inr True"
    and "\<not> (is_binary w p 8192 \<and> \<not> include_binary a)"
    and "stat w p = Inl e"
  shows "get_file_metadata w p =
           \<lparr>size_md = 0, size_str = ''Unknown'', created = Str ''Unknown'',
            modified = Str ''Unknown'', error_md = Some (str_exn e)\<rparr>
       \<and> map_sum id status (process_file w a p cs)
           = map_sum id status (process_file (w\<lparr>stat := s\<rparr>) a p cs)
       \<and> (relpath w p (path a) = Inr rel \<and> open_r w p = Inr bs \<and> utf8_decode bs = Some decoded
            \<longrightarrow> (\<exists>header footer.
                   process_file w a p cs
                     = Inr (Success p (get_file_metadata w p) header
                              (universal_newlines decoded) footer)
                   \<and> processed (calc_stats
                        (rs @ Success p (get_file_metadata w p) header
                                (universal_newlines decoded) footer # rs'))
                       = processed (calc_stats (rs @ rs')) + 1
                   \<and> total_size (calc_stats
                        (rs @ Success p (get_file_metadata w p) header
                                (universal_newlines decoded) footer # rs'))
                       = total_size (calc_stats (rs @ rs'))
                   \<and> body (rs @ Success p (get_file_metadata w p) header
                                (universal_newlines decoded) footer # rs')
                       = body rs @ (str header @ universal_newlines decoded @ str footer)
                         @ body rs'))"
proof (intro conjI impI)
  show md: "get_file_metadata w p =
           \<lparr>size_md = 0, size_str = ''Unknown'', created = Str ''Unknown'',
            modified = Str ''Unknown'', error_md = Some (str_exn e)\<rparr>"
    using assms(3) by (simp add: metadata_after_stat_failure metadata_unknown_def)
  show "map_sum id status (process_file w a p cs)
           = map_sum id status (process_file (w\<lparr>stat := s\<rparr>) a p cs)"
    by (simp add: status_without_stat)
  assume ok: "relpath w p (path a) = Inr rel \<and> open_r w p = Inr bs \<and> utf8_decode bs = Some decoded"
  then obtain header footer where
    hf: "build_file_header w p a (get_file_metadata w p) cs = Inr (header, footer)"
    by (cases "build_file_header w p a (get_file_metadata w p) cs")
       (auto simp: build_file_header_def)
  have "process_file w a p cs
          = Inr (Success p (get_file_metadata w p) header (universal_newlines decoded) footer)"
    using assms(1,2) ok hf by (auto simp: process_file_def Let_def read_chunks_all)
  moreover have "size_md (get_file_metadata w p) = 0"
    by (simp add: md)
  ultimately show "\<exists>header footer.
                   process_file w a p cs
                     = Inr (Success p (get_file_metadata w p) header
                              (universal_newlines decoded) footer)
                   \<and> processed (calc_stats
                        (rs @ Success p (get_file_metadata w p) header
                                (universal_newlines decoded) footer # rs'))
                       = processed (calc_stats (rs @ rs')) + 1
                   \<and> total_size (calc_stats
                        (rs @ Success p (get_file_metadata w p) header
                                (universal_newlines decoded) footer # rs'))
                       = total_size (calc_stats (rs @ rs'))
                   \<and> body (rs @ Success p (get_file_metadata w p) header
                                (universal_newlines decoded) footer # rs')
                       = body rs @ (str header @ universal_newlines decoded @ str footer)
                         @ body rs'"
    by (simp add: success_in_statistics)
qed


lemma stat_fails_world:
  "should_process_file
     (directory [(''a.txt'', ascii ''hello'')]\<lparr>stat := \<lambda>p. Inl (Exception ''Permission denied'')\<rparr>)
     ''root/a.txt'' plain_args = Inr True"
  "\<not> (is_binary
        (directory [(''a.txt'', ascii ''hello'')]\<lparr>stat := \<lambda>p. Inl (Exception ''Permission denied'')\<rparr>)
        ''root/a.txt'' 8192 \<and> \<not> include_binary plain_args)"
  "stat (directory [(''a.txt'', ascii ''hello'')]\<lparr>stat := \<lambda>p. Inl (Exception ''Permission denied'')\<rparr>)
     ''root/a.txt'' = Inl (Exception ''Permission denied'')"
  "relpath
     (directory [(''a.txt'', ascii ''hello'')]\<lparr>stat := \<lambda>p. Inl (Exception ''Permission denied'')\<rparr>)
     ''root/a.txt'' (path plain_args) = Inr ''a.txt''
   \<and> open_r
     (directory [(''a.txt'', ascii ''hello'')]\<lparr>stat := \<lambda>p. Inl (Exception ''Permission denied'')\<rparr>)
     ''root/a.txt'' = Inr (ascii ''hello'')
   \<and> utf8_decode (ascii ''hello'') = Some (str ''hello'')"
  "universal_newlines (str ''hello'') = str ''hello''"
  by code_simp+

theorem stat_failure_is_not_an_error_witness:
  "get_file_metadata
       (directory [(''a.txt'', ascii ''hello'')]\<lparr>stat := \<lambda>p. Inl (Exception ''Permission denied'')\<rparr>)
       ''root/a.txt''
     = \<lparr>size_md = 0, size_str = ''Unknown'', created = Str ''Unknown'',
        modified = Str ''Unknown'', error_md = Some (str_exn (Exception ''Permission denied''))\<rparr>
   \<and> (\<exists>header footer.
         process_file
           (directory [(''a.txt'', ascii ''hello'')]\<lparr>stat := \<lambda>p. Inl (Exception ''Permission denied'')\<rparr>)
           plain_args ''root/a.txt'' ''#''
         = Inr (Success ''root/a.txt''
                  (get_file_metadata
                     (directory [(''a.txt'', ascii ''hello'')]\<lparr>stat := \<lambda>p. Inl (Exception ''Permission denied'')\<rparr>)
                     ''root/a.txt'')
                  header (universal_newlines (str ''hello'')) footer))"
  using stat_failure_is_not_an_error
          [OF stat_fails_world(1) stat_fails_world(2) stat_fails_world(3),
           of "''#''" _ "''a.txt''" "ascii ''hello''" "str ''hello''" "[]" "[]"]
        stat_fails_world(4)
  by blast

lemma twenty_bytes:
  "getsize (directory [(''big.txt'', ascii ''twenty bytes of text'')]) ''root/big.txt'' = Inr 20"
  "should_process_file (directory [(''big.txt'', ascii ''twenty bytes of text'')]) ''root/big.txt''
     (plain_args\<lparr>max_size := Some 10\<rparr>) = Inr True"
  "map_sum id status
     (process_file (directory [(''big.txt'', ascii ''twenty bytes of text'')])
        (plain_args\<lparr>max_size := Some 10\<rparr>) ''root/big.txt'' ''#'') = Inr ''success''"
  by code_simp+

text \<open>
  C1, as the specification states it: with the maximum size set to 10, a text file of 20
  bytes is skipped. It is not: the filter accepts it and the worker returns a success.
\<close>

theorem size_limit_of_ten_counterexample:
  "getsize (directory [(''big.txt'', ascii ''twenty bytes of text'')]) ''root/big.txt'' = Inr 20
   \<and> should_process_file (directory [(''big.txt'', ascii ''twenty bytes of text'')])
        ''root/big.txt'' (plain_args\<lparr>max_size := Some 10\<rparr>) = Inr True
   \<and> map_sum id status
        (process_file (directory [(''big.txt'', ascii ''twenty bytes of text'')])
           (plain_args\<lparr>max_size := Some 10\<rparr>) ''root/big.txt'' ''#'') = Inr ''success''"
  using twenty_bytes by simp

lemma skipped_not_in_body: "body (rs @ Skipped p reason # rs') = body (rs @ rs')"
  by (simp add: body_def successful_def)

text \<open>
  C1, amended: the maximum size counts kilobytes. With a maximum size \<open>kb\<close> other than 0
  and a file whose size \<open>sz\<close> can be read: if \<open>sz\<close> exceeds \<open>kb * 1024\<close> bytes the
  filter rejects the file, the worker returns a skip with the reason of every filter
  rejection, and the file is not in the body; otherwise the filter answers as it does with
  no maximum size.
\<close>

theorem size_rule_in_kilobytes:
  assumes "max_size a = Some kb" and "kb \<noteq> 0" and "getsize w p = Inr sz"
  shows "(sz > kb * 1024 \<longrightarrow>
            should_process_file w p a = Inr False
            \<and> process_file w a p cs = Inr (Skipped p ''filtered out by rules'')
            \<and> body (rs @ Skipped p ''filtered out by rules'' # rs') = body (rs @ rs'))
       \<and> (sz \<le> kb * 1024 \<longrightarrow>
            should_process_file w p a = should_process_file w p (a\<lparr>max_size := None\<rparr>))"
  using assms
  by (auto simp: should_process_file_def process_file_def extension_rules_def skipped_not_in_body)

lemma over_one_kilobyte:
  "max_size (plain_args\<lparr>max_size := Some 1\<rparr>) = Some 1"
  "getsize (directory [(''big.txt'', replicate 1025 0x61)]) ''root/big.txt'' = Inr 1025"
  by code_simp+

theorem size_rule_in_kilobytes_witness:
  "should_process_file (directory [(''big.txt'', replicate 1025 0x61)]) ''root/big.txt''
     (plain_args\<lparr>max_size := Some 1\<rparr>) = Inr False
   \<and> process_file (directory [(''big.txt'', replicate 1025 0x61)])
       (plain_args\<lparr>max_size := Some 1\<rparr>) ''root/big.txt'' ''#''
       = Inr (Skipped ''root/big.txt'' ''filtered out by rules'')"
  using size_rule_in_kilobytes [OF over_one_kilobyte(1) _ over_one_kilobyte(2), of "''#''" "[]" "[]"]
  by simp

lemma getsize_fails:
  "process_file
     (directory [(''a.txt'', ascii ''hello'')]
        \<lparr>getsize := \<lambda>p. Inl (Exception ''No such file or directory'')\<rparr>)
     (plain_args\<lparr>max_size := Some 10\<rparr>) ''root/a.txt'' ''#''
     = Inl (Exception ''No such file or directory'')"
  "main
     (directory [(''a.txt'', ascii ''hello'')]
        \<lparr>getsize := \<lambda>p. Inl (Exception ''No such file or directory'')\<rparr>)
     (plain_args\<lparr>max_size := Some 10\<rparr>) [0]
     = Some (Inl (Exception ''No such file or directory''))"
  by code_simp+

text \<open>
  C8 fails on the code: \<^verbatim>\<open>os.path.getsize\<close> is called outside every \<^verbatim>\<open>try\<close>.
  When a maximum size is given and the file passes the two checks before the size rule but
  \<^verbatim>\<open>os.path.getsize\<close> raises (the file is removed in between), \<open>process_file\<close>
  raises instead of returning a result, and the exception ends the whole run.
\<close>

theorem process_file_raises_when_getsize_fails:
  "process_file
     (directory [(''a.txt'', ascii ''hello'')]
        \<lparr>getsize := \<lambda>p. Inl (Exception ''No such file or directory'')\<rparr>)
     (plain_args\<lparr>max_size := Some 10\<rparr>) ''root/a.txt'' ''#''
     = Inl (Exception ''No such file or directory'')
   \<and> main
     (directory [(''a.txt'', ascii ''hello'')]
        \<lparr>getsize := \<lambda>p. Inl (Exception ''No such file or directory'')\<rparr>)
     (plain_args\<lparr>max_size := Some 10\<rparr>) [0]
     = Some (Inl (Exception ''No such file or directory''))"
  using getsize_fails by simp

text \<open>
  Every other path through \<open>process_file\<close> returns a result: it raises only when the
  filter does.
\<close>

lemma process_file_returns:
  "should_process_file w p a = Inr ok \<Longrightarrow> \<exists>r. process_file w a p cs = Inr r"
  by (auto simp: process_file_def Let_def split: sum.splits prod.splits option.splits)








text \<open>
  C2, as the specification states it: the skipped count of the statistics counts the
  skipped results only. It does not: one result with the status \<^verbatim>\<open>error\<close> makes the
  skipped count 1 while no result was skipped.
\<close>

theorem skipped_statistic_counts_errors_counterexample:
  "skipped (calc_stats [Error ''root/x.txt'' ''Permission denied''])
     \<noteq> length (skipped_results [Error ''root/x.txt'' ''Permission denied''])"
  by (simp add: calc_stats_def skipped_results_def error_results_def successful_def)

lemma status_cases:
  "count_list (map status rs) ''success'' + count_list (map status rs) ''skipped''
     + count_list (map status rs) ''error'' = length rs"
proof (induction rs)
  case Nil
  show ?case by simp
next
  case (Cons r rs)
  then show ?case by (cases r) simp_all
qed

lemma length_filter_status:
  "length (filter (\<lambda>r. status r = s) rs) = count_list (map status rs) s"
  by (induction rs) simp_all

text \<open>
  C2, amended: for every list of results, the processed count of the statistics is the
  number of successes, the error count is the number of error results, and the skipped
  count is the number of skipped results plus the number of error results, that is, every
  file that is not in the document; the processed and the skipped count add up to the
  number of files. In a run that ends with the exit code 0, the summary printed at the end
  shows the number of skipped results and the number of error results apart.
\<close>

theorem statistics_count_skips_and_errors:
  "processed (calc_stats rs) = count_list (map status rs) ''success''
   \<and> skipped (calc_stats rs)
       = count_list (map status rs) ''skipped'' + count_list (map status rs) ''error''
   \<and> errors (calc_stats rs) = count_list (map status rs) ''error''
   \<and> processed (calc_stats rs) + skipped (calc_stats rs) = length rs
   \<and> (main w a completion = Some (Inr r) \<and> exit_code r = 0 \<longrightarrow>
        (\<exists>results. run_stats r = Some (calc_stats results)
           \<and> printed_skipped r = count_list (map status results) ''skipped''
           \<and> printed_errors r = count_list (map status results) ''error''))"
proof (intro conjI impI)
  assume "main w a completion = Some (Inr r) \<and> exit_code r = 0"
  then obtain results where
    "r = \<lparr>exit_code = 0,
          output_file = Some (document w a results),
          run_stats = Some (calc_stats results),
          printed_skipped = length (skipped_results results),
          printed_errors = length (error_results results)\<rparr>"
    using main_exit_0 by blast
  then have "run_stats r = Some (calc_stats results)
           \<and> printed_skipped r = count_list (map status results) ''skipped''
           \<and> printed_errors r = count_list (map status results) ''error''"
    by (simp add: skipped_results_def error_results_def length_filter_status)
  then show "\<exists>results. run_stats r = Some (calc_stats results)
           \<and> printed_skipped r = count_list (map status results) ''skipped''
           \<and> printed_errors r = count_list (map status results) ''error''"
    by blast
qed (use status_cases [of rs] in
      \<open>simp_all add: calc_stats_def Let_def successful_def skipped_results_def
         error_results_def length_filter_status\<close>)

theorem statistics_count_skips_and_errors_witness:
  "skipped (calc_stats [Skipped ''root/b.bin'' ''binary file'',
                        Error ''root/x.txt'' ''Permission denied'',
                        Error ''root/y.txt'' ''Permission denied'']) = 3
   \<and> errors (calc_stats [Skipped ''root/b.bin'' ''binary file'',
                        Error ''root/x.txt'' ''Permission denied'',
                        Error ''root/y.txt'' ''Permission denied'']) = 2
   \<and> (\<exists>r results.
         main (directory scenario_files) scenario_args [0, 1, 2] = Some (Inr r)
         \<and> exit_code r = 0
         \<and> run_stats r = Some (calc_stats results)
         \<and> printed_skipped r = count_list (map status results) ''skipped''
         \<and> printed_errors r = count_list (map status results) ''error'')"
proof -
  obtain r where r:
    "main (directory scenario_files) scenario_args [0, 1, 2] = Some (Inr r)" "exit_code r = 0"
    using scenario_runs by simp
  note counts =
    statistics_count_skips_and_errors
      [of "[Skipped ''root/b.bin'' ''binary file'',
            Error ''root/x.txt'' ''Permission denied'',
            Error ''root/y.txt'' ''Permission denied'']"
          "directory scenario_files" scenario_args "[0, 1, 2]" r]
  from counts r obtain results where
    "run_stats r = Some (calc_stats results)"
    "printed_skipped r = count_list (map status results) ''skipped''"
    "printed_errors r = count_list (map status results) ''error''"
    by blast
  moreover from counts have
    "skipped (calc_stats [Skipped ''root/b.bin'' ''binary file'',
                          Error ''root/x.txt'' ''Permission denied'',
                          Error ''root/y.txt'' ''Permission denied'']) = 3"
    "errors (calc_stats [Skipped ''root/b.bin'' ''binary file'',
                          Error ''root/x.txt'' ''Permission denied'',
                          Error ''root/y.txt'' ''Permission denied'']) = 2"
    by simp_all
  ultimately show ?thesis using r by blast
qed

end
